theory Spec2Isabelle
  imports Complex_Main "HOL-Library.Sublist"
begin

section \<open>Python values used by the backend\<close>

text \<open>
  Python \<open>int\<close> is \<open>int\<close>. A Python \<open>float\<close> is a real number. Where the rounding
  of a float operation decides a result (the reading time, the text/HTML ratio and the
  thresholds it is compared with) the operation is rounded to double precision by
  \<open>fl\<close>; the sums of the scorer and the arithmetic of the opportunity score are exact,
  and NaN and infinity are not values of the model. The conversion of an \<open>int\<close> beyond
  the range of a double raises \<open>OverflowError\<close>. \<open>str\<close> is \<open>string\<close>, a list of
  characters with codes 0..255, and a \<open>dict\<close> whose order matters is an association
  list.
\<close>

datatype py_error = ZeroDivisionError | ValueError | TransportError | OverflowError

text \<open>\<open>round(x)\<close> on a float: the nearest integer, ties to the even one.\<close>

definition py_round :: "real \<Rightarrow> int" where
  "py_round x =
     (let f = \<lfloor>x\<rfloor>; d = x - of_int f
      in if d < 1 / 2 then f
         else if 1 / 2 < d then f + 1
         else if even f then f else f + 1)"

text \<open>\<open>round(x, 2)\<close>: a float again, rounded to two decimals.\<close>

definition py_round2 :: "real \<Rightarrow> real" where
  "py_round2 x = of_int (py_round (x * 100)) / 100"

text \<open>\<open>int(x)\<close> on a float truncates toward zero.\<close>

definition py_int :: "real \<Rightarrow> int" where
  "py_int x = (if 0 \<le> x then \<lfloor>x\<rfloor> else \<lceil>x\<rceil>)"

text \<open>
  The double nearest to a real number, ties to the even significand: with
  \<open>2^e \<le> |x| < 2^(e+1)\<close> the doubles around \<open>x\<close> are the multiples of \<open>2^(e-52)\<close>.
  This is the result of one float operation (\<open>a / b\<close>, \<open>a * b\<close>, a literal) whose exact
  value is \<open>x\<close>, for results in the normal range of a double.
\<close>

definition fl :: "real \<Rightarrow> real" where
  "fl x =
     (if x = 0 then 0
      else (let e = \<lfloor>log 2 \<bar>x\<bar>\<rfloor>;
                ulp = (2::real) powr (of_int e - 52)
            in sgn x * of_int (py_round (\<bar>x\<bar> / ulp)) * ulp))"

text \<open>
  \<open>round(x, 3)\<close> on a double \<open>x\<close>: the exact value of \<open>x\<close> rounded to three decimals,
  ties to even, and the double nearest to that.
\<close>

definition py_round3 :: "real \<Rightarrow> real" where
  "py_round3 x = fl (of_int (py_round (x * 1000)) / 1000)"

text \<open>Truth value of an optional string: \<open>None\<close> and \<open>""\<close> are false.\<close>

fun truthy :: "string option \<Rightarrow> bool" where
  "truthy None = False"
| "truthy (Some s) = (s \<noteq> [])"

text \<open>\<open>str.isspace\<close> for one character (codes 0..255).\<close>

definition py_isspace :: "char \<Rightarrow> bool" where
  "py_isspace c =
     (let n = of_char c :: nat
      in (9 \<le> n \<and> n \<le> 13) \<or> (28 \<le> n \<and> n \<le> 32) \<or> n = 133 \<or> n = 160)"

text \<open>\<open>s.split()\<close>: the maximal runs of non-whitespace characters, in order.\<close>

fun split_acc :: "string \<Rightarrow> string \<Rightarrow> string list" where
  "split_acc cur [] = (if cur = [] then [] else [rev cur])"
| "split_acc cur (c # cs) =
     (if py_isspace c
      then (if cur = [] then split_acc [] cs else rev cur # split_acc [] cs)
      else split_acc (c # cur) cs)"

definition py_split :: "string \<Rightarrow> string list" where
  "py_split s = split_acc [] s"

text \<open>\<open>s.strip()\<close> and \<open>s.strip(chars)\<close>.\<close>

definition py_strip_chars :: "char list \<Rightarrow> string \<Rightarrow> string" where
  "py_strip_chars cs s =
     rev (dropWhile (\<lambda>c. c \<in> set cs) (rev (dropWhile (\<lambda>c. c \<in> set cs) s)))"

definition py_strip :: "string \<Rightarrow> string" where
  "py_strip s = rev (dropWhile py_isspace (rev (dropWhile py_isspace s)))"

text \<open>
  \<open>s.lower()\<close> on characters with codes 0..255: the letters A to Z, and the capital
  letters of Latin-1 (codes 192 to 222 but for 215, the multiplication sign), whose
  lower-case letter is 32 further.
\<close>

definition lower_char :: "char \<Rightarrow> char" where
  "lower_char c =
     (case map_of (zip ''ABCDEFGHIJKLMNOPQRSTUVWXYZ'' ''abcdefghijklmnopqrstuvwxyz'') c of
        Some l \<Rightarrow> l
      | None \<Rightarrow>
          (let n = of_char c :: nat
           in if 192 \<le> n \<and> n \<le> 222 \<and> n \<noteq> 215 then char_of (n + 32) else c))"

definition py_lower :: "string \<Rightarrow> string" where
  "py_lower s = map lower_char s"

text \<open>\<open>s.startswith(p)\<close> is \<^const>\<open>prefix\<close>; \<open>p in s\<close> on strings is a sublist test.\<close>

fun py_contains :: "string \<Rightarrow> string \<Rightarrow> bool" where
  "py_contains p [] = (p = [])"
| "py_contains p (c # cs) = (prefix p (c # cs) \<or> py_contains p cs)"

text \<open>\<open>s.replace(p, "")\<close>: every occurrence of \<open>p\<close> removed, left to right.\<close>

function py_remove :: "string \<Rightarrow> string \<Rightarrow> string" where
  "py_remove p s =
     (if s = [] \<or> p = [] then s
      else if prefix p s then py_remove p (drop (length p) s)
      else hd s # py_remove p (tl s))"
  by pat_completeness auto
termination
  by (relation "measure (\<lambda>(p, s). length s)") auto

declare py_remove.simps [simp del]

section \<open>Crawl results and analyzed pages\<close>

record CrawlResult =
  cr_url :: string
  cr_final_url :: string
  cr_status_code :: int
  cr_html :: string
  cr_headers :: "(string \<times> string) list"
  cr_load_time_ms :: int
  cr_page_size_bytes :: int
  cr_error :: "string option"

definition is_success :: "CrawlResult \<Rightarrow> bool" where
  "is_success r = (cr_error r = None \<and> 200 \<le> cr_status_code r \<and> cr_status_code r < 400)"

datatype json = JNull | JBool bool | JNum int | JStr string
  | JArr "json list" | JObj "(string \<times> json) list"

record link_data =
  link_url :: string
  anchor_text :: string
  is_nofollow :: bool
  is_internal :: bool

record AnalyzedPage =
  url :: string
  canonical_url :: "string option"
  status_code :: int
  title :: "string option"
  title_length :: int
  meta_description :: "string option"
  meta_description_length :: int
  meta_robots :: "string option"
  canonical_tag :: "string option"
  is_indexable :: bool
  is_canonical :: bool
  h1_tags :: "string list"
  h2_tags :: "string list"
  h3_tags :: "string list"
  h4_tags :: "string list"
  h5_tags :: "string list"
  h6_tags :: "string list"
  word_count :: int
  content_text :: string
  reading_time_seconds :: int
  text_html_ratio :: real
  language :: "string option"
  load_time_ms :: int
  page_size_bytes :: int
  is_https :: bool
  has_viewport_meta :: bool
  has_schema_markup :: bool
  schema_types :: "string list"
  structured_data :: "(string \<times> json list) list"
  has_open_graph :: bool
  open_graph_data :: "(string \<times> string) list"
  has_twitter_card :: bool
  twitter_card_data :: "(string \<times> string) list"
  has_hreflang :: bool
  total_images :: int
  images_missing_alt :: int
  images_with_alt :: int
  internal_links :: "link_data list"
  external_links :: "link_data list"
  internal_links_count :: int
  external_links_count :: int
  keyword_frequencies :: "(string \<times> nat) list"
  entities :: "json list"
  raw_html :: string
  headers :: "(string \<times> string) list"

text \<open>\<open>AnalyzedPage.__init__\<close>: the defaults of every signal.\<close>

definition AnalyzedPage_init :: AnalyzedPage where
  "AnalyzedPage_init =
     \<lparr> url = [], canonical_url = None, status_code = 0, title = None, title_length = 0,
       meta_description = None, meta_description_length = 0, meta_robots = None,
       canonical_tag = None, is_indexable = True, is_canonical = True,
       h1_tags = [], h2_tags = [], h3_tags = [], h4_tags = [], h5_tags = [], h6_tags = [],
       word_count = 0, content_text = [], reading_time_seconds = 0, text_html_ratio = 0,
       language = None, load_time_ms = 0, page_size_bytes = 0, is_https = False,
       has_viewport_meta = False, has_schema_markup = False, schema_types = [],
       structured_data = [], has_open_graph = False, open_graph_data = [],
       has_twitter_card = False, twitter_card_data = [], has_hreflang = False,
       total_images = 0, images_missing_alt = 0, images_with_alt = 0,
       internal_links = [], external_links = [], internal_links_count = 0,
       external_links_count = 0, keyword_frequencies = [], entities = [],
       raw_html = [], headers = [] \<rparr>"

section \<open>Scorer\<close>

text \<open>The score weights of \<open>core/config.py\<close> (their defaults).\<close>

record Settings =
  SCORE_TECHNICAL_WEIGHT :: real
  SCORE_CONTENT_WEIGHT :: real
  SCORE_AUTHORITY_WEIGHT :: real
  SCORE_LINKING_WEIGHT :: real
  SCORE_AI_VISIBILITY_WEIGHT :: real

definition settings :: Settings where
  "settings =
     \<lparr> SCORE_TECHNICAL_WEIGHT = 35 / 100, SCORE_CONTENT_WEIGHT = 30 / 100,
       SCORE_AUTHORITY_WEIGHT = 20 / 100, SCORE_LINKING_WEIGHT = 10 / 100,
       SCORE_AI_VISIBILITY_WEIGHT = 5 / 100 \<rparr>"

record PageScore =
  overall_score :: real
  technical_score :: real
  content_score :: real
  authority_score :: real
  linking_score :: real
  ai_visibility_score :: real
  technical_breakdown :: "(string \<times> int \<times> int) list"
  content_breakdown :: "(string \<times> int \<times> int) list"
  linking_breakdown :: "(string \<times> int \<times> int) list"

definition clamp :: "real \<Rightarrow> real" where
  "clamp v = max 0 (min 100 v)"

text \<open>
  Each component of a dimension is one function returning its points; the breakdown
  keeps, per component, the points given and the maximum.
\<close>

definition https_pts :: "AnalyzedPage \<Rightarrow> int" where
  "https_pts page = (if is_https page then 10 else 0)"

definition status_pts :: "AnalyzedPage \<Rightarrow> int" where
  "status_pts page =
     (if status_code page = 200 then 10
      else if 200 < status_code page \<and> status_code page < 400 then 5 else 0)"

definition index_pts :: "AnalyzedPage \<Rightarrow> int" where
  "index_pts page = (if is_indexable page then 15 else 0)"

definition viewport_pts :: "AnalyzedPage \<Rightarrow> int" where
  "viewport_pts page = (if has_viewport_meta page then 5 else 0)"

definition lt_pts :: "AnalyzedPage \<Rightarrow> int" where
  "lt_pts page =
     (let lt = load_time_ms page
      in if lt \<le> 1000 then 10 else if lt \<le> 2000 then 7
         else if lt \<le> 3000 then 5 else if lt \<le> 5000 then 2 else 0)"

definition size_pts :: "AnalyzedPage \<Rightarrow> int" where
  "size_pts page =
     (let size_kb = real_of_int (page_size_bytes page) / 1024
      in if size_kb < 500 then 10 else if size_kb < 1024 then 7
         else if size_kb < 2048 then 3 else 0)"

definition canonical_pts :: "AnalyzedPage \<Rightarrow> int" where
  "canonical_pts page = (if truthy (canonical_tag page) then 5 else 0)"

definition schema_pts :: "AnalyzedPage \<Rightarrow> int" where
  "schema_pts page = (if has_schema_markup page then 10 else 0)"

definition og_pts :: "AnalyzedPage \<Rightarrow> int" where
  "og_pts page = (if has_open_graph page then 5 else 0)"

definition tc_pts :: "AnalyzedPage \<Rightarrow> int" where
  "tc_pts page = (if has_twitter_card page then 5 else 0)"

definition hl_pts :: "AnalyzedPage \<Rightarrow> int" where
  "hl_pts page = (if has_hreflang page then 5 else 0)"

definition score_technical :: "AnalyzedPage \<Rightarrow> real \<times> (string \<times> int \<times> int) list" where
  "score_technical page =
     (let breakdown =
        [(''https'', https_pts page, 10), (''status_code'', status_pts page, 10),
         (''indexable'', index_pts page, 15), (''viewport'', viewport_pts page, 5),
         (''load_time'', lt_pts page, 10), (''page_size'', size_pts page, 10),
         (''canonical'', canonical_pts page, 5), (''schema_markup'', schema_pts page, 10),
         (''open_graph'', og_pts page, 5), (''twitter_card'', tc_pts page, 5),
         (''hreflang'', hl_pts page, 5)];
        score = real_of_int (sum_list (map (\<lambda>(k, pts, mx). pts) breakdown));
        max_possible = 90
      in ((score / max_possible) * 100, breakdown))"

definition title_pts :: "AnalyzedPage \<Rightarrow> int" where
  "title_pts page =
     (if truthy (title page)
      then (if 50 \<le> title_length page \<and> title_length page \<le> 60 then 20
            else if 30 \<le> title_length page \<and> title_length page \<le> 70 then 15
            else if title_length page > 0 then 8 else 0)
      else 0)"

definition desc_pts :: "AnalyzedPage \<Rightarrow> int" where
  "desc_pts page =
     (if truthy (meta_description page)
      then (if 150 \<le> meta_description_length page \<and> meta_description_length page \<le> 160
            then 15
            else if 100 \<le> meta_description_length page
                    \<and> meta_description_length page \<le> 180 then 10
            else 5)
      else 0)"

definition h1_pts :: "AnalyzedPage \<Rightarrow> int" where
  "h1_pts page =
     (let h1_count = length (h1_tags page)
      in if h1_count = 1 then 15 else if h1_count > 1 then 8 else 0)"

definition h2_pts :: "AnalyzedPage \<Rightarrow> int" where
  "h2_pts page =
     (if length (h2_tags page) \<ge> 2 then 5 else if length (h2_tags page) = 1 then 2 else 0)"

definition wc_pts :: "AnalyzedPage \<Rightarrow> int" where
  "wc_pts page =
     (let wc = word_count page
      in if wc \<ge> 1500 then 20 else if wc \<ge> 800 then 15
         else if wc \<ge> 400 then 10 else if wc \<ge> 200 then 5 else 0)"

definition alt_pts :: "AnalyzedPage \<Rightarrow> int" where
  "alt_pts page =
     (if total_images page > 0
      then (let alt_ratio = real_of_int (images_with_alt page) / real_of_int (total_images page)
            in py_round (alt_ratio * 10))
      else 10)"

text \<open>The literals \<open>0.3\<close> and \<open>0.15\<close> are the doubles nearest to them.\<close>

definition ratio_pts :: "AnalyzedPage \<Rightarrow> int" where
  "ratio_pts page =
     (let ratio = text_html_ratio page
      in if ratio \<ge> fl (3 / 10) then 10 else if ratio \<ge> fl (15 / 100) then 5 else 0)"

definition score_content :: "AnalyzedPage \<Rightarrow> real \<times> (string \<times> int \<times> int) list" where
  "score_content page =
     (let breakdown =
        [(''title'', title_pts page, 20), (''meta_description'', desc_pts page, 15),
         (''h1'', h1_pts page, 15), (''h2'', h2_pts page, 5),
         (''word_count'', wc_pts page, 20), (''image_alt'', alt_pts page, 10),
         (''text_ratio'', ratio_pts page, 10)];
        score = real_of_int (sum_list (map (\<lambda>(k, pts, mx). pts) breakdown));
        max_possible = 95
      in ((score / max_possible) * 100, breakdown))"

definition out_pts :: "AnalyzedPage \<Rightarrow> int" where
  "out_pts page =
     (let out_count = internal_links_count page
      in if out_count \<ge> 5 then 30 else if out_count \<ge> 2 then 20
         else if out_count \<ge> 1 then 10 else 0)"

definition link_ratio_pts :: "AnalyzedPage \<Rightarrow> int" where
  "link_ratio_pts page =
     (let out_count = internal_links_count page
      in if 1 \<le> out_count \<and> out_count \<le> 50 then 20
         else if out_count > 100 then 5 else 0)"

definition in_pts :: "int \<Rightarrow> int" where
  "in_pts inbound_count =
     (if inbound_count \<ge> 10 then 50 else if inbound_count \<ge> 5 then 35
      else if inbound_count \<ge> 2 then 20 else if inbound_count \<ge> 1 then 10 else 0)"

definition score_linking ::
  "AnalyzedPage \<Rightarrow> int \<Rightarrow> real \<times> (string \<times> int \<times> int) list" where
  "score_linking page inbound_count =
     (let breakdown =
        [(''outgoing_internal'', out_pts page, 30),
         (''link_count_quality'', link_ratio_pts page, 20),
         (''inbound_links'', in_pts inbound_count, 50)];
        score = real_of_int (sum_list (map (\<lambda>(k, pts, mx). pts) breakdown))
      in (score, breakdown))"

definition score_authority :: "int \<Rightarrow> real" where
  "score_authority inbound_link_count =
     (if inbound_link_count \<ge> 50 then 90
      else if inbound_link_count \<ge> 20 then 75
      else if inbound_link_count \<ge> 10 then 60
      else if inbound_link_count \<ge> 5 then 45
      else if inbound_link_count \<ge> 2 then 30
      else if inbound_link_count \<ge> 1 then 15
      else 5)"

definition high_value_schemas :: "string set" where
  "high_value_schemas = {''FAQPage'', ''HowTo'', ''Article'', ''Product'', ''LocalBusiness''}"

definition score_ai_visibility :: "AnalyzedPage \<Rightarrow> real" where
  "score_ai_visibility page =
     (let s0 = (if has_schema_markup page
                then 40 + real (card (set (schema_types page) \<inter> high_value_schemas)) * 10
                else 0);
          s1 = (if length (h1_tags page) = 1 then s0 + 15 else s0);
          s2 = (if length (h2_tags page) \<ge> 2 then s1 + 15 else s1);
          s3 = (if has_open_graph page then s2 + 10 else s2);
          s4 = (if word_count page \<ge> 1000 then s3 + 10 else s3)
      in clamp s4)"

definition score_page :: "Settings \<Rightarrow> AnalyzedPage \<Rightarrow> int \<Rightarrow> PageScore" where
  "score_page cfg page inbound_link_count =
     (let (tech_score, tech_breakdown) = score_technical page;
          (cont_score, cont_breakdown) = score_content page;
          (link_score, link_breakdown) = score_linking page inbound_link_count;
          auth_score = score_authority inbound_link_count;
          ai_score = score_ai_visibility page;
          t = clamp tech_score; c = clamp cont_score; a = clamp auth_score;
          l = clamp link_score; v = clamp ai_score
      in \<lparr> overall_score =
             clamp (t * SCORE_TECHNICAL_WEIGHT cfg + c * SCORE_CONTENT_WEIGHT cfg
                    + a * SCORE_AUTHORITY_WEIGHT cfg + l * SCORE_LINKING_WEIGHT cfg
                    + v * SCORE_AI_VISIBILITY_WEIGHT cfg),
           technical_score = t, content_score = c, authority_score = a,
           linking_score = l, ai_visibility_score = v,
           technical_breakdown = tech_breakdown, content_breakdown = cont_breakdown,
           linking_breakdown = link_breakdown \<rparr>)"

section \<open>Properties of the scorer\<close>

lemma clamp_range: "0 \<le> clamp v \<and> clamp v \<le> 100"
  by (simp add: clamp_def)

lemma clamp_id: "0 \<le> v \<Longrightarrow> v \<le> 100 \<Longrightarrow> clamp v = v"
  by (simp add: clamp_def)

lemma weighted_range:
  fixes t c a l v :: real
  assumes "0 \<le> t" "t \<le> 100" "0 \<le> c" "c \<le> 100" "0 \<le> a" "a \<le> 100"
    "0 \<le> l" "l \<le> 100" "0 \<le> v" "v \<le> 100"
  shows "0 \<le> t * (35 / 100) + c * (30 / 100) + a * (20 / 100) + l * (10 / 100) + v * (5 / 100)"
    and "t * (35 / 100) + c * (30 / 100) + a * (20 / 100) + l * (10 / 100) + v * (5 / 100) \<le> 100"
  using assms by auto

lemma score_page_dimensions:
  "technical_score (score_page cfg page n) = clamp (fst (score_technical page))"
  "content_score (score_page cfg page n) = clamp (fst (score_content page))"
  "authority_score (score_page cfg page n) = clamp (score_authority n)"
  "linking_score (score_page cfg page n) = clamp (fst (score_linking page n))"
  "ai_visibility_score (score_page cfg page n) = clamp (score_ai_visibility page)"
  by (simp_all add: score_page_def Let_def split_beta)

lemma score_page_overall:
  "overall_score (score_page settings page n) =
     clamp (technical_score (score_page settings page n) * (35 / 100)
          + content_score (score_page settings page n) * (30 / 100)
          + authority_score (score_page settings page n) * (20 / 100)
          + linking_score (score_page settings page n) * (10 / 100)
          + ai_visibility_score (score_page settings page n) * (5 / 100))"
  by (simp add: score_page_def Let_def split_beta settings_def)

text \<open>
  Claim C1. For every analyzed page and every inbound link count, \<open>score_page\<close> (with
  the configured weights 0.35, 0.30, 0.20, 0.10, 0.05) returns five dimension scores, each
  in [0,100], and an overall score that lies in [0,100] and differs from
  0.35 technical + 0.30 content + 0.20 authority + 0.10 linking + 0.05 ai_visibility by
  at most 0.01 (in exact arithmetic the two are equal).
\<close>

theorem score_page_ranges_and_overall:
  fixes page :: AnalyzedPage and n :: int
  defines "s \<equiv> score_page settings page n"
  shows "0 \<le> technical_score s \<and> technical_score s \<le> 100
       \<and> 0 \<le> content_score s \<and> content_score s \<le> 100
       \<and> 0 \<le> authority_score s \<and> authority_score s \<le> 100
       \<and> 0 \<le> linking_score s \<and> linking_score s \<le> 100
       \<and> 0 \<le> ai_visibility_score s \<and> ai_visibility_score s \<le> 100
       \<and> 0 \<le> overall_score s \<and> overall_score s \<le> 100
       \<and> \<bar>overall_score s
            - (35 / 100 * technical_score s + 30 / 100 * content_score s
               + 20 / 100 * authority_score s + 10 / 100 * linking_score s
               + 5 / 100 * ai_visibility_score s)\<bar> \<le> 1 / 100
       \<and> overall_score s
            = 35 / 100 * technical_score s + 30 / 100 * content_score s
              + 20 / 100 * authority_score s + 10 / 100 * linking_score s
              + 5 / 100 * ai_visibility_score s"
proof -
  have t: "0 \<le> technical_score s" "technical_score s \<le> 100"
    and c: "0 \<le> content_score s" "content_score s \<le> 100"
    and a: "0 \<le> authority_score s" "authority_score s \<le> 100"
    and l: "0 \<le> linking_score s" "linking_score s \<le> 100"
    and v: "0 \<le> ai_visibility_score s" "ai_visibility_score s \<le> 100"
    unfolding s_def score_page_dimensions using clamp_range by blast+
  let ?w = "technical_score s * (35 / 100) + content_score s * (30 / 100)
          + authority_score s * (20 / 100) + linking_score s * (10 / 100)
          + ai_visibility_score s * (5 / 100)"
  have w: "0 \<le> ?w" "?w \<le> 100"
    using weighted_range [OF t c a l v] by blast+
  have "overall_score s = clamp ?w"
    unfolding s_def by (rule score_page_overall)
  then have o: "overall_score s = ?w"
    using w by (simp only: clamp_id)
  show ?thesis
    using t c a l v w o by (simp add: algebra_simps)
qed

text \<open>The scores of the page with every signal at its default and no inbound link.\<close>

theorem score_page_ranges_and_overall_witness:
  "0 \<le> overall_score (score_page settings AnalyzedPage_init 0)
   \<and> overall_score (score_page settings AnalyzedPage_init 0) \<le> 100
   \<and> technical_score (score_page settings AnalyzedPage_init 0) = 3500 / 90
   \<and> authority_score (score_page settings AnalyzedPage_init 0) = 5"
proof -
  have "technical_score (score_page settings AnalyzedPage_init 0) = 3500 / 90"
    by (simp add: score_page_dimensions score_technical_def AnalyzedPage_init_def Let_def
        clamp_def https_pts_def status_pts_def index_pts_def viewport_pts_def lt_pts_def
        size_pts_def canonical_pts_def schema_pts_def og_pts_def tc_pts_def hl_pts_def)
  moreover have "authority_score (score_page settings AnalyzedPage_init 0) = 5"
    by (simp add: score_page_dimensions score_authority_def clamp_def)
  ultimately show ?thesis
    using score_page_ranges_and_overall [of AnalyzedPage_init 0] by simp
qed

section \<open>Keyword engine: the opportunity score\<close>

text \<open>
  \<open>a / b\<close> on floats raises \<open>ZeroDivisionError\<close> when \<open>b\<close> is zero, and
  \<open>math.log1p(x)\<close> raises \<open>ValueError\<close> when \<open>x \<le> -1\<close>.
\<close>

definition py_true_div :: "real \<Rightarrow> real \<Rightarrow> py_error + real" where
  "py_true_div a b = (if b = 0 then Inl ZeroDivisionError else Inr (a / b))"

definition py_log1p :: "real \<Rightarrow> py_error + real" where
  "py_log1p x = (if x \<le> - 1 then Inl ValueError else Inr (ln (1 + x)))"

text \<open>The first statement of the function: \<open>if difficulty <= 0: difficulty = 1.0\<close>.\<close>

definition effective_difficulty :: "real \<Rightarrow> real" where
  "effective_difficulty difficulty = (if difficulty \<le> 0 then 1 else difficulty)"

text \<open>
  \<open>volume * ctr * rank_gap\<close> multiplies an \<open>int\<close> by a \<open>float\<close> and the product by an
  \<open>int\<close>: each \<open>int\<close> is converted to a double first, and the conversion raises
  \<open>OverflowError\<close> ("int too large to convert to float") for an \<open>int\<close> that rounds
  beyond the largest double, that is from \<open>2^1024 - 2^970\<close> on. The value converted
  is taken exactly.
\<close>

definition DBL_OVERFLOW :: int where
  "DBL_OVERFLOW = 2 ^ 1024 - 2 ^ 970"

definition float_of_int :: "int \<Rightarrow> py_error + real" where
  "float_of_int n = (if \<bar>n\<bar> < DBL_OVERFLOW then Inr (of_int n) else Inl OverflowError)"

definition compute_opportunity_score :: "int \<Rightarrow> real \<Rightarrow> int \<Rightarrow> real \<Rightarrow> py_error + real" where
  "compute_opportunity_score volume ctr rank_gap difficulty =
     (let difficulty = effective_difficulty difficulty
      in if volume \<le> 0 \<or> ctr \<le> 0 \<or> rank_gap \<le> 0 then Inr 0
         else case float_of_int volume of
                Inl e \<Rightarrow> Inl e
              | Inr v \<Rightarrow>
                  (case float_of_int rank_gap of
                     Inl e \<Rightarrow> Inl e
                   | Inr g \<Rightarrow>
                       (case py_true_div (v * ctr * g) difficulty of
                          Inl e \<Rightarrow> Inl e
                        | Inr raw_score \<Rightarrow>
                            (case py_log1p raw_score of
                               Inl e \<Rightarrow> Inl e
                             | Inr lg \<Rightarrow> Inr (py_round2 (min 100 (lg * 8)))))))"

section \<open>Properties of the opportunity score\<close>

lemma py_round_mono: "x \<le> y \<Longrightarrow> py_round x \<le> py_round y"
proof -
  assume xy: "x \<le> y"
  have fx: "\<lfloor>x\<rfloor> \<le> \<lfloor>y\<rfloor>" using xy by (rule floor_mono)
  have lo: "\<lfloor>y\<rfloor> \<le> py_round y" by (simp add: py_round_def Let_def)
  have hi: "py_round x \<le> \<lfloor>x\<rfloor> + 1" by (simp add: py_round_def Let_def)
  show ?thesis
  proof (cases "\<lfloor>x\<rfloor> = \<lfloor>y\<rfloor>")
    case True
    then show ?thesis using xy by (auto simp add: py_round_def Let_def)
  next
    case False
    then have "\<lfloor>x\<rfloor> + 1 \<le> \<lfloor>y\<rfloor>" using fx by linarith
    then show ?thesis using lo hi by linarith
  qed
qed

lemma py_round_lower: "0 \<le> x \<Longrightarrow> 0 \<le> py_round x"
  by (simp add: py_round_def Let_def)

lemma py_round_int: "py_round (of_int k) = k"
  by (simp add: py_round_def Let_def)

lemma py_round2_mono: "x \<le> y \<Longrightarrow> py_round2 x \<le> py_round2 y"
  by (simp add: py_round2_def py_round_mono divide_right_mono)

lemma py_round2_0: "py_round2 0 = 0"
  by (simp add: py_round2_def py_round_def)

lemma py_round2_100: "py_round2 100 = 100"
  using py_round_int [of 10000] by (simp add: py_round2_def)


lemma effective_difficulty_pos: "0 < effective_difficulty d"
  by (simp add: effective_difficulty_def)

lemma raw_pos:
  "0 < v \<Longrightarrow> 0 < c \<Longrightarrow> 0 < g \<Longrightarrow>
   0 < (of_int v * c * of_int g) / effective_difficulty d"
  by (simp add: effective_difficulty_pos)

lemma compute_opportunity_score_eq:
  assumes "v \<le> 0 \<or> c \<le> 0 \<or> g \<le> 0 \<or> (v < DBL_OVERFLOW \<and> g < DBL_OVERFLOW)"
  shows "compute_opportunity_score v c g d =
     Inr (if v \<le> 0 \<or> c \<le> 0 \<or> g \<le> 0 then 0
          else py_round2 (min 100 (ln (1 + (of_int v * c * of_int g) / effective_difficulty d) * 8)))"
proof (cases "v \<le> 0 \<or> c \<le> 0 \<or> g \<le> 0")
  case True
  then show ?thesis by (simp add: compute_opportunity_score_def)
next
  case False
  then have r: "float_of_int v = Inr (of_int v)" "float_of_int g = Inr (of_int g)"
    using assms by (simp_all add: float_of_int_def)
  have "0 < (of_int v * c * of_int g) / effective_difficulty d"
    using False raw_pos [of v c g d] by simp
  then have n1: "\<not> (of_int v * c * of_int g) / effective_difficulty d \<le> - 1"
    by linarith
  have n0: "effective_difficulty d \<noteq> 0"
    using effective_difficulty_pos [of d] by simp
  show ?thesis
    using False n0 n1
    by (simp add: compute_opportunity_score_def r py_true_div_def py_log1p_def Let_def)
qed

lemma compute_opportunity_score_overflow:
  assumes "0 < v" "0 < c" "0 < g" and "DBL_OVERFLOW \<le> v \<or> DBL_OVERFLOW \<le> g"
  shows "compute_opportunity_score v c g d = Inl OverflowError"
proof (cases "DBL_OVERFLOW \<le> v")
  case True
  then have "float_of_int v = Inl OverflowError"
    using assms(1) by (simp add: float_of_int_def)
  then show ?thesis using assms by (simp add: compute_opportunity_score_def)
next
  case False
  then have "float_of_int v = Inr (of_int v)" "float_of_int g = Inl OverflowError"
    using assms by (simp_all add: float_of_int_def)
  then show ?thesis using assms by (simp add: compute_opportunity_score_def)
qed

text \<open>What a returned score is: the call returns only where no conversion overflows.\<close>

lemma compute_opportunity_score_Inr:
  "compute_opportunity_score v c g d = Inr s \<longleftrightarrow>
     (v \<le> 0 \<or> c \<le> 0 \<or> g \<le> 0 \<or> (v < DBL_OVERFLOW \<and> g < DBL_OVERFLOW))
     \<and> s = (if v \<le> 0 \<or> c \<le> 0 \<or> g \<le> 0 then 0
            else py_round2 (min 100 (ln (1 + (of_int v * c * of_int g) / effective_difficulty d) * 8)))"
proof (cases "v \<le> 0 \<or> c \<le> 0 \<or> g \<le> 0 \<or> (v < DBL_OVERFLOW \<and> g < DBL_OVERFLOW)")
  case True
  from compute_opportunity_score_eq [OF this, of d] True show ?thesis by auto
next
  case False
  then have "compute_opportunity_score v c g d = Inl OverflowError"
    by (intro compute_opportunity_score_overflow) auto
  then show ?thesis using False by auto
qed


lemma opportunity_range:
  assumes "compute_opportunity_score v c g d = Inr s"
  shows "0 \<le> s \<and> s \<le> 100"
proof (cases "v \<le> 0 \<or> c \<le> 0 \<or> g \<le> 0")
  case True
  then show ?thesis using assms by (simp add: compute_opportunity_score_Inr)
next
  case False
  let ?y = "min 100 (ln (1 + (of_int v * c * of_int g) / effective_difficulty d) * 8)"
  have "0 < (of_int v * c * of_int g) / effective_difficulty d"
    using False raw_pos [of v c g d] by simp
  then have "0 \<le> ?y" by simp
  then have "py_round2 0 \<le> py_round2 ?y" by (rule py_round2_mono)
  moreover have "py_round2 ?y \<le> py_round2 100" by (rule py_round2_mono) simp
  ultimately show ?thesis
    using False assms by (simp add: compute_opportunity_score_Inr py_round2_0 py_round2_100)
qed




lemma small_ints_convert:
  "(1::int) < DBL_OVERFLOW" "(12::int) < DBL_OVERFLOW" "(10000::int) < DBL_OVERFLOW"
  "(15000::int) < DBL_OVERFLOW"
  by (simp_all add: DBL_OVERFLOW_def)



text \<open>
  Claim C9, as the code has it. \<open>compute_opportunity_score\<close> never divides by zero: a
  difficulty \<open>\<le> 0\<close> is coerced to 1.0 before the division, so the divisor is positive.
  It returns a value in [0,100] whenever one of volume, ctr, rank_gap is \<open>\<le> 0\<close> or
  volume and rank_gap are below \<open>2^1024 - 2^970\<close>, the \<open>int\<close>s that convert to a double.
  It is not total: for positive arguments with volume or rank_gap from that bound on,
  the conversion raises \<open>OverflowError\<close>. Every value it does return lies in [0,100].
\<close>

theorem compute_opportunity_score_returns_in_float_range:
  "0 < effective_difficulty difficulty
   \<and> (difficulty \<le> 0 \<longrightarrow> effective_difficulty difficulty = 1)
   \<and> compute_opportunity_score volume ctr rank_gap difficulty \<noteq> Inl ZeroDivisionError
   \<and> (volume \<le> 0 \<or> ctr \<le> 0 \<or> rank_gap \<le> 0
        \<or> (volume < DBL_OVERFLOW \<and> rank_gap < DBL_OVERFLOW)
      \<longrightarrow> (\<exists>s. compute_opportunity_score volume ctr rank_gap difficulty = Inr s
                \<and> 0 \<le> s \<and> s \<le> 100))
   \<and> (0 < volume \<and> 0 < ctr \<and> 0 < rank_gap
        \<and> (DBL_OVERFLOW \<le> volume \<or> DBL_OVERFLOW \<le> rank_gap)
      \<longrightarrow> compute_opportunity_score volume ctr rank_gap difficulty = Inl OverflowError)
   \<and> (\<forall>s. compute_opportunity_score volume ctr rank_gap difficulty = Inr s
          \<longrightarrow> 0 \<le> s \<and> s \<le> 100)"
proof -
  have d: "0 < effective_difficulty difficulty
         \<and> (difficulty \<le> 0 \<longrightarrow> effective_difficulty difficulty = 1)"
    using effective_difficulty_pos [of difficulty] by (simp add: effective_difficulty_def)
  have r: "\<forall>s. compute_opportunity_score volume ctr rank_gap difficulty = Inr s
          \<longrightarrow> 0 \<le> s \<and> s \<le> 100"
    using opportunity_range by blast
  have i: "volume \<le> 0 \<or> ctr \<le> 0 \<or> rank_gap \<le> 0
        \<or> (volume < DBL_OVERFLOW \<and> rank_gap < DBL_OVERFLOW)
      \<longrightarrow> (\<exists>s. compute_opportunity_score volume ctr rank_gap difficulty = Inr s
                \<and> 0 \<le> s \<and> s \<le> 100)"
  proof
    assume "volume \<le> 0 \<or> ctr \<le> 0 \<or> rank_gap \<le> 0
        \<or> (volume < DBL_OVERFLOW \<and> rank_gap < DBL_OVERFLOW)"
    from compute_opportunity_score_eq [OF this, of difficulty]
    obtain s where "compute_opportunity_score volume ctr rank_gap difficulty = Inr s"
      by blast
    then show "\<exists>s. compute_opportunity_score volume ctr rank_gap difficulty = Inr s
                \<and> 0 \<le> s \<and> s \<le> 100"
      using r by blast
  qed
  have o: "0 < volume \<and> 0 < ctr \<and> 0 < rank_gap
        \<and> (DBL_OVERFLOW \<le> volume \<or> DBL_OVERFLOW \<le> rank_gap)
      \<longrightarrow> compute_opportunity_score volume ctr rank_gap difficulty = Inl OverflowError"
    using compute_opportunity_score_overflow [of volume ctr rank_gap difficulty] by blast
  have z: "compute_opportunity_score volume ctr rank_gap difficulty \<noteq> Inl ZeroDivisionError"
  proof (cases "volume \<le> 0 \<or> ctr \<le> 0 \<or> rank_gap \<le> 0
        \<or> (volume < DBL_OVERFLOW \<and> rank_gap < DBL_OVERFLOW)")
    case True
    then show ?thesis using i by auto
  next
    case False
    then have "compute_opportunity_score volume ctr rank_gap difficulty = Inl OverflowError"
      using o by auto
    then show ?thesis by simp
  qed
  show ?thesis using d z i o r by blast
qed

text \<open>
  A difficulty of 0, where an unguarded division would fail, gives a score for the
  arguments of scenario 5.
\<close>

theorem compute_opportunity_score_returns_in_float_range_witness:
  "effective_difficulty 0 = 1
   \<and> (\<exists>s. compute_opportunity_score 15000 (99 / 1000) 12 0 = Inr s \<and> 0 \<le> s \<and> s \<le> 100)"
  using compute_opportunity_score_returns_in_float_range
    [where difficulty = 0 and volume = 15000 and ctr = "99 / 1000" and rank_gap = 12]
    small_ints_convert
  by simp

text \<open>
  Against claim C9 as stated ("total ... for every combination of inputs"): with the
  volume \<open>10^400\<close>, ctr 0.099, rank gap 12 and difficulty 75 the product
  \<open>volume * ctr\<close> raises \<open>OverflowError\<close> and no score is returned.
\<close>

theorem compute_opportunity_score_overflow_counterexample:
  "compute_opportunity_score (10 ^ 400) (99 / 1000) 12 75 = Inl OverflowError"
proof -
  have "DBL_OVERFLOW \<le> (10::int) ^ 400" by (simp add: DBL_OVERFLOW_def)
  then show ?thesis by (intro compute_opportunity_score_overflow) simp_all
qed

section \<open>Robots policy\<close>

text \<open>
  The HTTP client is the environment: a GET returns a response or raises. The
  robots.txt rule parser (\<open>RobotExclusionRulesParser\<close>) and Python's \<open>float()\<close> are
  library code, taken as parameters; the parsed rules answer for a user agent and a URL,
  or raise.
\<close>

record http_response =
  resp_status :: int
  resp_text :: string

type_synonym http_get = "string \<Rightarrow> py_error + http_response"

type_synonym robots_rules = "string \<Rightarrow> string \<Rightarrow> py_error + bool"

record robots_lib =
  rules_parse :: "string \<Rightarrow> robots_rules"
  py_float :: "string \<Rightarrow> real option"

record RobotsChecker =
  rc_base_url :: string
  rc_parser :: "robots_rules option"
  crawl_delay :: real
  raw_content :: "string option"
  fetched :: bool

definition CRAWLER_USER_AGENT :: string where
  "CRAWLER_USER_AGENT = ''SEOBot/1.0 (+https://yourdomain.com/bot)''"

text \<open>\<open>s.rstrip("/")\<close>.\<close>

definition rstrip_slash :: "string \<Rightarrow> string" where
  "rstrip_slash s = rev (dropWhile (\<lambda>c. c = CHR ''/'') (rev s))"

definition RobotsChecker_init :: "string \<Rightarrow> RobotsChecker" where
  "RobotsChecker_init base_url =
     \<lparr> rc_base_url = rstrip_slash base_url, rc_parser = None, crawl_delay = 0,
       raw_content = None, fetched = False \<rparr>"

text \<open>\<open>s.splitlines()\<close>: CR LF counts as one line end.\<close>

definition is_linebreak :: "char \<Rightarrow> bool" where
  "is_linebreak c =
     (let n = of_char c :: nat in (10 \<le> n \<and> n \<le> 13) \<or> (28 \<le> n \<and> n \<le> 30) \<or> n = 133)"

fun splitlines_acc :: "string \<Rightarrow> string \<Rightarrow> string list" where
  "splitlines_acc cur [] = (if cur = [] then [] else [rev cur])"
| "splitlines_acc cur [c] = (if is_linebreak c then [rev cur] else [rev (c # cur)])"
| "splitlines_acc cur (c # d # ds) =
     (if c = CHR 0x0D \<and> d = CHR 0x0A then rev cur # splitlines_acc [] ds
      else if is_linebreak c then rev cur # splitlines_acc [] (d # ds)
      else splitlines_acc (c # cur) (d # ds))"

definition py_splitlines :: "string \<Rightarrow> string list" where
  "py_splitlines s = splitlines_acc [] s"

text \<open>\<open>line.split(":", 1)[1].strip()\<close> for a line that holds a colon.\<close>

definition after_colon :: "string \<Rightarrow> string" where
  "after_colon line = py_strip (drop 1 (dropWhile (\<lambda>c. c \<noteq> CHR '':'') line))"

text \<open>The loop over the lines of robots.txt that reads \<open>Crawl-delay:\<close>.\<close>

fun read_crawl_delay :: "robots_lib \<Rightarrow> real \<Rightarrow> string list \<Rightarrow> real" where
  "read_crawl_delay lib delay [] = delay"
| "read_crawl_delay lib delay (line # lines) =
     (if prefix ''crawl-delay:'' (py_lower line)
      then (case py_float lib (after_colon line) of
              Some d \<Rightarrow> read_crawl_delay lib (max 0 d) lines
            | None \<Rightarrow> read_crawl_delay lib delay lines)
      else read_crawl_delay lib delay lines)"

text \<open>
  \<open>RobotsChecker.fetch\<close>: one GET of \<open>/robots.txt\<close>. The second component is the list
  of requests the call made.
\<close>

definition fetch :: "robots_lib \<Rightarrow> http_get \<Rightarrow> RobotsChecker \<Rightarrow> RobotsChecker \<times> string list" where
  "fetch lib client rc =
     (let robots_url = rc_base_url rc @ ''/robots.txt'';
          rc' = (case client robots_url of
                   Inl e \<Rightarrow> rc
                 | Inr response \<Rightarrow>
                     if resp_status response = 200
                     then rc\<lparr> raw_content := Some (resp_text response),
                             rc_parser := Some (rules_parse lib (resp_text response)),
                             crawl_delay := read_crawl_delay lib (crawl_delay rc)
                                              (py_splitlines (resp_text response)) \<rparr>
                     else rc)
      in (rc'\<lparr> fetched := True \<rparr>, [robots_url]))"

definition is_allowed :: "RobotsChecker \<Rightarrow> string \<Rightarrow> bool" where
  "is_allowed rc u =
     (if \<not> fetched rc \<or> rc_parser rc = None then True
      else (case the (rc_parser rc) CRAWLER_USER_AGENT u of Inl e \<Rightarrow> True | Inr b \<Rightarrow> b))"

definition get_sitemaps :: "RobotsChecker \<Rightarrow> string list" where
  "get_sitemaps rc =
     (if truthy (raw_content rc)
      then map after_colon
             (filter (\<lambda>line. prefix ''sitemap:'' (py_lower line))
                (py_splitlines (the (raw_content rc))))
      else [])"

section \<open>Properties of the robots policy\<close>

text \<open>
  Claim C7. If the robots.txt fetch returns a status other than 200 or raises, the
  policy of the checker (created for the job and fetched once at setup) allows every URL,
  reports no sitemaps and a crawl delay of 0; the fetch made one request and no more,
  and the checker is marked fetched. The policy queries read the checker only.
\<close>

theorem robots_failure_allows_all:
  assumes "case client (rstrip_slash base_url @ ''/robots.txt'') of
             Inl e \<Rightarrow> True | Inr response \<Rightarrow> resp_status response \<noteq> 200"
  shows "(\<forall>u. is_allowed (fst (fetch lib client (RobotsChecker_init base_url))) u)
       \<and> get_sitemaps (fst (fetch lib client (RobotsChecker_init base_url))) = []
       \<and> crawl_delay (fst (fetch lib client (RobotsChecker_init base_url))) = 0
       \<and> fetched (fst (fetch lib client (RobotsChecker_init base_url)))
       \<and> snd (fetch lib client (RobotsChecker_init base_url))
           = [rstrip_slash base_url @ ''/robots.txt'']"
  using assms
  by (auto simp add: fetch_def RobotsChecker_init_def is_allowed_def get_sitemaps_def Let_def
      split: sum.splits)

text \<open>A 404 for \<open>https://example.test/robots.txt\<close>, and a network failure.\<close>

theorem robots_failure_allows_all_witness:
  "is_allowed
     (fst (fetch \<lparr> rules_parse = (\<lambda>txt agent u. Inr False), py_float = (\<lambda>s. None) \<rparr>
             (\<lambda>u. Inr \<lparr> resp_status = 404, resp_text = ''Not Found'' \<rparr>)
             (RobotsChecker_init ''https://example.test/'')))
     ''https://example.test/private''
   \<and> get_sitemaps
       (fst (fetch \<lparr> rules_parse = (\<lambda>txt agent u. Inr False), py_float = (\<lambda>s. None) \<rparr>
               (\<lambda>u. Inl TransportError) (RobotsChecker_init ''https://example.test/''))) = []
   \<and> snd (fetch \<lparr> rules_parse = (\<lambda>txt agent u. Inr False), py_float = (\<lambda>s. None) \<rparr>
            (\<lambda>u. Inl TransportError) (RobotsChecker_init ''https://example.test/''))
       = [''https://example.test/robots.txt'']"
proof -
  let ?lib = "\<lparr> rules_parse = (\<lambda>txt agent u. Inr False), py_float = (\<lambda>s. None) \<rparr>"
  have a: "case (\<lambda>u. Inr \<lparr> resp_status = 404, resp_text = ''Not Found'' \<rparr> :: py_error + http_response)
             (rstrip_slash ''https://example.test/'' @ ''/robots.txt'') of
             Inl e \<Rightarrow> True | Inr response \<Rightarrow> resp_status response \<noteq> 200"
    by simp
  have b: "case (\<lambda>u. Inl TransportError :: py_error + http_response)
             (rstrip_slash ''https://example.test/'' @ ''/robots.txt'') of
             Inl e \<Rightarrow> True | Inr response \<Rightarrow> resp_status response \<noteq> 200"
    by simp
  have r: "rstrip_slash ''https://example.test/'' = ''https://example.test''"
    by (simp add: rstrip_slash_def)
  show ?thesis
    using robots_failure_allows_all [OF a, of ?lib] robots_failure_allows_all [OF b, of ?lib] r
    by simp
qed

section \<open>Rate limiter\<close>

text \<open>
  \<open>_last_request\<close> is a \<open>defaultdict(float)\<close>: a domain never seen reads as 0.0. The
  constructor divides by the rate.
\<close>

record DomainRateLimiter =
  rate :: real
  min_interval :: real
  last_request :: "string \<Rightarrow> real"

definition DomainRateLimiter_init :: "real \<Rightarrow> py_error + DomainRateLimiter" where
  "DomainRateLimiter_init rate_per_second =
     (if rate_per_second = 0 then Inl ZeroDivisionError
      else Inr \<lparr> rate = rate_per_second, min_interval = 1 / rate_per_second,
                 last_request = (\<lambda>domain. 0) \<rparr>)"

text \<open>
  \<open>acquire\<close> reads the monotonic clock twice: \<open>now\<close> on entry and \<open>later\<close> when it
  records the request; between the two it sleeps for \<open>wait_time\<close> when that is positive.
  The two readings are inputs of the model. The result is the limiter with the new
  \<open>last_request\<close> and the sleep that was asked for, if any.
\<close>

definition acquire ::
  "DomainRateLimiter \<Rightarrow> string \<Rightarrow> real \<Rightarrow> real \<Rightarrow> DomainRateLimiter \<times> real option" where
  "acquire rl domain now later =
     (let last = last_request rl domain;
          elapsed = now - last;
          wait_time = min_interval rl - elapsed
      in (rl\<lparr> last_request := (last_request rl)(domain := later) \<rparr>,
          if wait_time > 0 then Some wait_time else None))"

text \<open>
  What the environment guarantees of the two readings: the clock does not go back, and
  a sleep of \<open>w\<close> seconds lasts at least \<open>w - eps\<close>, \<open>eps\<close> being the resolution of the
  event loop's timer.
\<close>

fun clock_ok :: "real \<Rightarrow> real \<Rightarrow> real \<Rightarrow> real option \<Rightarrow> bool" where
  "clock_ok eps now later None = (now \<le> later)"
| "clock_ok eps now later (Some w) = (now \<le> later \<and> now + w - eps \<le> later)"

text \<open>
  A sequential run: a list of calls (domain, first reading, second reading), each
  entered no earlier than \<open>t\<close>, the time the call before it completed.
\<close>

fun sequential :: "real \<Rightarrow> DomainRateLimiter \<Rightarrow> real \<Rightarrow> (string \<times> real \<times> real) list \<Rightarrow> bool" where
  "sequential eps rl t [] = True"
| "sequential eps rl t ((domain, now, later) # calls) =
     (t \<le> now \<and> clock_ok eps now later (snd (acquire rl domain now later))
      \<and> sequential eps (fst (acquire rl domain now later)) later calls)"

text \<open>The completion times of the calls for one host, in order.\<close>

definition completions :: "string \<Rightarrow> (string \<times> real \<times> real) list \<Rightarrow> real list" where
  "completions h calls = map (\<lambda>(domain, now, later). later) (filter (\<lambda>(domain, now, later). domain = h) calls)"

text \<open>Each time is at least \<open>gap\<close> after the one before, and not before it.\<close>

fun paced :: "real \<Rightarrow> real \<Rightarrow> real list \<Rightarrow> bool" where
  "paced gap prev [] = True"
| "paced gap prev (c # cs) = (prev \<le> c \<and> prev + gap \<le> c \<and> paced gap c cs)"

section \<open>Properties of the rate limiter\<close>

lemma acquire_other_host:
  "h' \<noteq> h \<Longrightarrow> last_request (fst (acquire rl h now later)) h' = last_request rl h'"
  by (simp add: acquire_def Let_def)

lemma acquire_records:
  "last_request (fst (acquire rl h now later)) h = later"
  by (simp add: acquire_def Let_def)

lemma acquire_min_interval:
  "min_interval (fst (acquire rl h now later)) = min_interval rl"
  by (simp add: acquire_def Let_def)

lemma acquire_gap:
  assumes "clock_ok eps now later (snd (acquire rl h now later))" and "0 \<le> eps"
  shows "now \<le> later \<and> last_request rl h + (min_interval rl - eps) \<le> later"
proof (cases "min_interval rl - (now - last_request rl h) > 0")
  case True
  then have "snd (acquire rl h now later) = Some (min_interval rl - (now - last_request rl h))"
    by (simp add: acquire_def Let_def)
  then show ?thesis using assms by simp
next
  case False
  then have "snd (acquire rl h now later) = None"
    by (simp add: acquire_def Let_def)
  then show ?thesis using assms False by simp
qed

lemma sequential_paced:
  assumes "sequential eps rl t calls" and "0 \<le> eps" and "last_request rl h \<le> t"
  shows "paced (min_interval rl - eps) (last_request rl h) (completions h calls)"
  using assms
proof (induction calls arbitrary: rl t)
  case Nil
  then show ?case by (simp add: completions_def)
next
  case (Cons call calls)
  obtain domain now later where call: "call = (domain, now, later)"
    by (cases call) auto
  let ?rl = "fst (acquire rl domain now later)"
  from Cons.prems call have tn: "t \<le> now"
    and ok: "clock_ok eps now later (snd (acquire rl domain now later))"
    and rest: "sequential eps ?rl later calls"
    by simp_all
  from acquire_gap [OF ok Cons.prems(2)] have nl: "now \<le> later"
    and gap: "last_request rl domain + (min_interval rl - eps) \<le> later"
    by simp_all
  show ?case
  proof (cases "domain = h")
    case True
    have "last_request ?rl h \<le> later" using True by (simp add: acquire_records)
    from Cons.IH [OF rest Cons.prems(2) this]
    have "paced (min_interval rl - eps) later (completions h calls)"
      using True by (simp add: acquire_records acquire_min_interval)
    moreover have "last_request rl h \<le> later" using Cons.prems(3) tn nl by linarith
    ultimately show ?thesis using True call gap by (simp add: completions_def)
  next
    case False
    then have same: "last_request ?rl h = last_request rl h"
      by (simp add: acquire_other_host)
    then have "last_request ?rl h \<le> later" using Cons.prems(3) tn nl by linarith
    from Cons.IH [OF rest Cons.prems(2) this]
    show ?thesis using False call same by (simp add: completions_def acquire_min_interval)
  qed
qed

text \<open>
  Claim C8. For a limiter built for \<open>rps\<close> requests per second and any host \<open>h\<close>, in a
  sequential run (clock readings as the environment guarantees them, timer resolution
  \<open>eps\<close>) the calls \<open>acquire(h)\<close> complete at non-decreasing times, each at least
  \<open>1/rps - eps\<close> after the one before. One call asks for a sleep of
  \<open>1/rps - (now - last(h))\<close> exactly when that is positive, then records the clock
  reading taken after the sleep as the new \<open>last(h)\<close>, and leaves \<open>last\<close> of every
  other host as it was.
\<close>

theorem acquire_paces_each_host:
  assumes "DomainRateLimiter_init rps = Inr rl"
    and "sequential eps rl t calls" and "0 \<le> eps" and "0 \<le> t"
  shows "paced (1 / rps - eps) 0 (completions h calls)
       \<and> sorted (completions h calls)
       \<and> (\<forall>l now later. last_request (fst (acquire l h now later)) h = later
             \<and> snd (acquire l h now later)
                 = (if 0 < min_interval l - (now - last_request l h)
                    then Some (min_interval l - (now - last_request l h)) else None)
             \<and> (\<forall>h'. h' \<noteq> h \<longrightarrow>
                   last_request (fst (acquire l h now later)) h' = last_request l h'))"
proof -
  from assms(1) have rl: "min_interval rl = 1 / rps" "last_request rl h = 0"
    by (auto simp add: DomainRateLimiter_init_def split: if_splits)
  have p: "paced (1 / rps - eps) 0 (completions h calls)"
    using sequential_paced [OF assms(2) assms(3), of h] assms(4) rl by simp
  have s: "paced gap prev cs \<Longrightarrow> sorted cs \<and> (\<forall>c \<in> set cs. prev \<le> c)" for gap prev cs
    by (induction cs arbitrary: prev) force+
  show ?thesis
    using p s [OF p] by (simp add: acquire_def Let_def)
qed

text \<open>
  Scenario 4 of the specification in small: 2 requests per second, three calls for host
  \<open>a\<close> and one for host \<open>b\<close> between them; the second call for \<open>a\<close> is entered 0.1 s
  after the first and has to sleep 0.4 s.
\<close>

theorem acquire_paces_each_host_witness:
  "DomainRateLimiter_init 2
     = Inr \<lparr> rate = 2, min_interval = 1 / 2, last_request = (\<lambda>domain. 0) \<rparr>
   \<and> sequential 0 \<lparr> rate = 2, min_interval = 1 / 2, last_request = (\<lambda>domain. 0) \<rparr> 10
        [(''a'', 10, 10), (''a'', 101 / 10, 105 / 10), (''b'', 105 / 10, 105 / 10),
         (''a'', 12, 12)]
   \<and> paced (1 / 2 - 0) 0
        (completions ''a''
           [(''a'', 10, 10), (''a'', 101 / 10, 105 / 10), (''b'', 105 / 10, 105 / 10),
            (''a'', 12, 12)])
   \<and> completions ''a''
        [(''a'', 10, 10), (''a'', 101 / 10, 105 / 10), (''b'', 105 / 10, 105 / 10),
         (''a'', 12, 12)] = [10, 105 / 10, 12]"
proof -
  let ?rl = "\<lparr> rate = 2, min_interval = 1 / 2, last_request = (\<lambda>domain. 0) \<rparr>"
  let ?calls = "[(''a'', 10, 10), (''a'', 101 / 10, 105 / 10), (''b'', 105 / 10, 105 / 10),
         (''a'', 12 :: real, 12 :: real)]"
  have i: "DomainRateLimiter_init 2 = Inr ?rl"
    by (simp add: DomainRateLimiter_init_def)
  have s: "sequential 0 ?rl 10 ?calls"
    by (simp add: acquire_def Let_def)
  have c: "completions ''a'' ?calls = [10, 105 / 10, 12]"
    by (simp add: completions_def)
  show ?thesis
    using acquire_paces_each_host [OF i s, of "''a''"] i s c by simp
qed

section \<open>Sitemap discovery\<close>

text \<open>
  A parsed XML document is a list of nodes. \<open>find_all(name)\<close> lists the elements of
  that name in document order, at any depth; \<open>find(name)\<close> is the first of them; \<open>.text\<close>
  is the text of all descendants, concatenated.
\<close>

datatype xml = Element string "xml list" | Text string

fun find_all_in :: "string \<Rightarrow> xml \<Rightarrow> xml list" where
  "find_all_in name (Text t) = []"
| "find_all_in name (Element n children) =
     (if n = name then [Element n children] else []) @ concat (map (find_all_in name) children)"

definition find_all :: "string \<Rightarrow> xml list \<Rightarrow> xml list" where
  "find_all name nodes = concat (map (find_all_in name) nodes)"

fun children_of :: "xml \<Rightarrow> xml list" where
  "children_of (Text t) = []"
| "children_of (Element n children) = children"

definition find_first :: "string \<Rightarrow> xml \<Rightarrow> xml option" where
  "find_first name tag =
     (case find_all name (children_of tag) of [] \<Rightarrow> None | x # xs \<Rightarrow> Some x)"

fun text_of :: "xml \<Rightarrow> string" where
  "text_of (Text t) = t"
| "text_of (Element n children) = concat (map text_of children)"

text \<open>
  The HTTP client of the sitemap parser: HEAD gives a status, GET a status, a body and
  the \<open>content-encoding\<close> header; each may raise. Gunzip and the XML parser
  (\<open>BeautifulSoup(_, "xml")\<close>) are library code, taken as parameters.
\<close>

record sitemap_response =
  sm_status :: int
  sm_content :: string
  sm_content_encoding :: "string option"

record sitemap_client =
  http_head :: "string \<Rightarrow> py_error + int"
  http_get_sitemap :: "string \<Rightarrow> py_error + sitemap_response"

record sitemap_lib =
  gunzip :: "string \<Rightarrow> py_error + string"
  xml_parse :: "string \<Rightarrow> xml list"

definition COMMON_SITEMAP_PATHS :: "string list" where
  "COMMON_SITEMAP_PATHS =
     [''/sitemap.xml'', ''/sitemap_index.xml'', ''/sitemap-index.xml'', ''/sitemaps.xml'',
      ''/sitemap/sitemap.xml'', ''/wp-sitemap.xml'']"

text \<open>The loop \<open>for tag in tags: loc = tag.find("loc"); if loc and loc.text: ...\<close>.\<close>

fun collect_locs :: "xml list \<Rightarrow> string list" where
  "collect_locs [] = []"
| "collect_locs (tag # tags) =
     (case find_first ''loc'' tag of
        None \<Rightarrow> collect_locs tags
      | Some loc \<Rightarrow>
          if text_of loc \<noteq> [] then py_strip (text_of loc) # collect_locs tags
          else collect_locs tags)"

text \<open>
  \<open>_parse_xml\<close>: for a sitemap index the \<open>loc\<close> of each \<open>sitemap\<close> child is returned
  as it is; otherwise the \<open>loc\<close> of each \<open>url\<close>.
\<close>

definition parse_xml :: "sitemap_lib \<Rightarrow> string \<Rightarrow> string list" where
  "parse_xml lib xml_content =
     (let soup = xml_parse lib xml_content;
          sitemap_tags = find_all ''sitemap'' soup
      in if sitemap_tags \<noteq> [] then collect_locs sitemap_tags
         else collect_locs (find_all ''url'' soup))"

text \<open>\<open>_parse_sitemap\<close>: the URLs found and the new \<open>_processed\<close> set.\<close>

definition parse_sitemap ::
  "sitemap_lib \<Rightarrow> sitemap_client \<Rightarrow> string set \<Rightarrow> string \<Rightarrow> string list \<times> string set" where
  "parse_sitemap lib client processed sitemap_url =
     (if sitemap_url \<in> processed then ([], processed)
      else
        (case http_get_sitemap client sitemap_url of
           Inl e \<Rightarrow> []
         | Inr response \<Rightarrow>
             if sm_status response \<noteq> 200 then []
             else if suffix ''.gz'' sitemap_url \<or> sm_content_encoding response = Some ''gzip''
             then (case gunzip lib (sm_content response) of
                     Inl e \<Rightarrow> []
                   | Inr content \<Rightarrow> parse_xml lib content)
             else parse_xml lib (sm_content response),
         insert sitemap_url processed))"

text \<open>\<open>_discover_sitemaps\<close>: the common paths that answer a HEAD request with 200.\<close>

definition discover_sitemaps :: "sitemap_client \<Rightarrow> string \<Rightarrow> string list" where
  "discover_sitemaps client base_url =
     filter (\<lambda>u. http_head client u = Inr 200) (map (\<lambda>path. base_url @ path) COMMON_SITEMAP_PATHS)"

fun parse_each ::
  "sitemap_lib \<Rightarrow> sitemap_client \<Rightarrow> string set \<Rightarrow> string list \<Rightarrow> string list" where
  "parse_each lib client processed [] = []"
| "parse_each lib client processed (sitemap_url # rest) =
     (let (urls, processed') = parse_sitemap lib client processed sitemap_url
      in urls @ parse_each lib client processed' rest)"

text \<open>
  \<open>fetch_all\<close>. Python's \<open>list(set(_))\<close> leaves the order open; the model keeps the
  order of first occurrence, and statements about the result are about its set.
\<close>

definition fetch_all :: "sitemap_lib \<Rightarrow> sitemap_client \<Rightarrow> string \<Rightarrow> string list" where
  "fetch_all lib client base_url =
     (let sitemap_urls = discover_sitemaps client (rstrip_slash base_url)
      in remdups (parse_each lib client {} sitemap_urls))"

section \<open>Properties of sitemap discovery\<close>

text \<open>
  A site whose \<open>/sitemap.xml\<close> is an index naming one url-set, \<open>/pages.xml\<close>, which
  lists the page \<open>/a\<close>. Bodies are written as short names; \<open>site_parse\<close> is the document
  each one parses to.
\<close>

definition site_index :: "xml list" where
  "site_index =
     [Element ''sitemapindex''
        [Element ''sitemap'' [Element ''loc'' [Text ''https://example.test/pages.xml'']]]]"

definition site_pages :: "xml list" where
  "site_pages =
     [Element ''urlset'' [Element ''url'' [Element ''loc'' [Text ''https://example.test/a'']]]]"

definition site_lib :: sitemap_lib where
  "site_lib =
     \<lparr> gunzip = (\<lambda>content. Inr content),
       xml_parse = (\<lambda>content. if content = ''index'' then site_index
                               else if content = ''pages'' then site_pages else []) \<rparr>"

definition site_client :: sitemap_client where
  "site_client =
     \<lparr> http_head = (\<lambda>u. if u = ''https://example.test/sitemap.xml'' then Inr 200 else Inr 404),
       http_get_sitemap =
         (\<lambda>u. if u = ''https://example.test/sitemap.xml''
              then Inr \<lparr> sm_status = 200, sm_content = ''index'', sm_content_encoding = None \<rparr>
              else if u = ''https://example.test/pages.xml''
              then Inr \<lparr> sm_status = 200, sm_content = ''pages'', sm_content_encoding = None \<rparr>
              else Inr \<lparr> sm_status = 404, sm_content = [], sm_content_encoding = None \<rparr>) \<rparr>"

lemma py_strip_no_space:
  "s \<noteq> [] \<Longrightarrow> \<not> py_isspace (hd s) \<Longrightarrow> \<not> py_isspace (last s) \<Longrightarrow> py_strip s = s"
proof -
  assume s: "s \<noteq> []" and h: "\<not> py_isspace (hd s)" and l: "\<not> py_isspace (last s)"
  have "dropWhile py_isspace s = s" using s h by (cases s) auto
  moreover have "dropWhile py_isspace (rev s) = rev s"
    using s l by (cases "rev s") (auto simp add: last_rev [symmetric] simp del: last_rev)
  ultimately show ?thesis by (simp add: py_strip_def)
qed

text \<open>
  Claim C2 on this site: the claim gives \<open>{https://example.test/a}\<close>, the union of the
  \<open>loc\<close> entries of the url-set the index names. The code returns the \<open>loc\<close> of the
  index itself and never requests \<open>/pages.xml\<close>.
\<close>

theorem fetch_all_returns_index_locs:
  "fetch_all site_lib site_client ''https://example.test/'' = [''https://example.test/pages.xml'']
   \<and> parse_xml site_lib ''pages'' = [''https://example.test/a'']
   \<and> ''https://example.test/a'' \<notin> set (fetch_all site_lib site_client ''https://example.test/'')"
proof -
  have r: "rstrip_slash ''https://example.test/'' = ''https://example.test''"
    by (simp add: rstrip_slash_def)
  have d: "discover_sitemaps site_client ''https://example.test''
             = [''https://example.test/sitemap.xml'']"
    by (simp add: discover_sitemaps_def COMMON_SITEMAP_PATHS_def site_client_def)
  have s1: "py_strip ''https://example.test/pages.xml'' = ''https://example.test/pages.xml''"
    by (rule py_strip_no_space) (simp_all add: py_isspace_def)
  have s2: "py_strip ''https://example.test/a'' = ''https://example.test/a''"
    by (rule py_strip_no_space) (simp_all add: py_isspace_def)
  have i: "parse_xml site_lib ''index'' = [''https://example.test/pages.xml'']"
    by (simp add: parse_xml_def site_lib_def site_index_def find_all_def find_first_def s1)
  have p: "parse_xml site_lib ''pages'' = [''https://example.test/a'']"
    by (simp add: parse_xml_def site_lib_def site_pages_def find_all_def find_first_def s2)
  have g: "\<not> suffix ''.gz'' ''https://example.test/sitemap.xml''"
    by (simp add: suffix_to_prefix)
  have "parse_sitemap site_lib site_client {} ''https://example.test/sitemap.xml''
          = ([''https://example.test/pages.xml''], {''https://example.test/sitemap.xml''})"
    by (simp add: parse_sitemap_def site_client_def i g)
  then have "fetch_all site_lib site_client ''https://example.test/''
          = [''https://example.test/pages.xml'']"
    by (simp add: fetch_all_def r d)
  then show ?thesis using p by simp
qed

section \<open>Crawler: the main loop\<close>

text \<open>
  What one page task needs from outside the loop is the environment: the robots verdict
  (true when robots are not respected), the fetch (which may raise), the link extractor
  and the URL predicates, all of them built on library code (httpx, BeautifulSoup,
  urllib, tldextract). The rate limiter and the semaphore only delay a task.
\<close>

record crawl_env =
  robots_allowed :: "string \<Rightarrow> bool"
  fetch_url :: "string \<Rightarrow> py_error + CrawlResult"
  extract_links :: "string \<Rightarrow> string \<Rightarrow> string list"
  is_internal_url :: "string \<Rightarrow> bool"
  is_crawlable_url :: "string \<Rightarrow> bool"
  normalize_url :: "string \<Rightarrow> string option"

record crawler =
  max_depth :: int
  max_pages :: int
  max_concurrent :: int

record crawl_state =
  visited_urls :: "string set"
  queued_urls :: "string set"
  failed_urls :: "string set"
  url_queue :: "(string \<times> int) list"
  pages_crawled :: int
  pages_failed :: int
  emitted :: "(CrawlResult \<times> int) list"

definition crawl_state_init :: crawl_state where
  "crawl_state_init =
     \<lparr> visited_urls = {}, queued_urls = {}, failed_urls = {}, url_queue = [],
       pages_crawled = 0, pages_failed = 0, emitted = [] \<rparr>"

text \<open>\<open>_crawl_page\<close>: \<open>(None, [])\<close> when robots deny, else the result and its links.\<close>

definition crawl_page ::
  "crawl_env \<Rightarrow> string \<Rightarrow> int \<Rightarrow> py_error + (CrawlResult option \<times> string list)" where
  "crawl_page env u depth =
     (if \<not> robots_allowed env u then Inr (None, [])
      else (case fetch_url env u of
              Inl e \<Rightarrow> Inl e
            | Inr result \<Rightarrow>
                Inr (Some result,
                     if is_success result \<and> cr_html result \<noteq> []
                     then filter (\<lambda>link. is_internal_url env link \<and> is_crawlable_url env link)
                            (extract_links env (cr_html result) (cr_final_url result))
                     else [])))"

text \<open>
  The inner \<open>while\<close>: pop from the queue until the batch holds \<open>max_concurrent\<close>
  URLs; a popped URL that was visited is dropped.
\<close>

fun drain ::
  "int \<Rightarrow> (string \<times> int) list \<Rightarrow> string set \<Rightarrow> (string \<times> int) list
   \<Rightarrow> (string \<times> int) list \<times> string set \<times> (string \<times> int) list" where
  "drain mc batch visited [] = (batch, visited, [])"
| "drain mc batch visited ((u, depth) # queue) =
     (if int (length batch) < mc
      then (if u \<notin> visited then drain mc (batch @ [(u, depth)]) (insert u visited) queue
            else drain mc batch visited queue)
      else (batch, visited, (u, depth) # queue))"

text \<open>The loop over \<open>discovered_links\<close>.\<close>

fun enqueue_links :: "crawl_env \<Rightarrow> int \<Rightarrow> crawl_state \<Rightarrow> string list \<Rightarrow> crawl_state" where
  "enqueue_links env depth st [] = st"
| "enqueue_links env depth st (link # links) =
     (if truthy (normalize_url env link)
         \<and> the (normalize_url env link) \<notin> queued_urls st
         \<and> the (normalize_url env link) \<notin> visited_urls st
      then enqueue_links env depth
             (st\<lparr> url_queue := url_queue st @ [(the (normalize_url env link), depth + 1)],
                  queued_urls := insert (the (normalize_url env link)) (queued_urls st) \<rparr>)
             links
      else enqueue_links env depth st links)"

text \<open>
  The body of \<open>for i, result_data in enumerate(results)\<close> for one entry. The callback
  is recorded in \<open>emitted\<close>; what it raises is caught and logged.
\<close>

definition handle_result ::
  "crawler \<Rightarrow> crawl_env \<Rightarrow> crawl_state \<Rightarrow> string \<times> int
   \<Rightarrow> py_error + (CrawlResult option \<times> string list) \<Rightarrow> crawl_state" where
  "handle_result cfg env st item result_data =
     (case item of (u, depth) \<Rightarrow>
        (case result_data of
           Inl e \<Rightarrow> st\<lparr> failed_urls := insert u (failed_urls st),
                         pages_failed := pages_failed st + 1 \<rparr>
         | Inr (None, discovered_links) \<Rightarrow> st
         | Inr (Some crawl_result, discovered_links) \<Rightarrow>
             (let st1 = (if is_success crawl_result
                         then st\<lparr> pages_crawled := pages_crawled st + 1 \<rparr>
                         else st\<lparr> pages_failed := pages_failed st + 1,
                                  failed_urls := insert u (failed_urls st) \<rparr>);
                  st2 = st1\<lparr> emitted := emitted st1 @ [(crawl_result, depth)] \<rparr>
              in if depth < max_depth cfg then enqueue_links env depth st2 discovered_links
                 else st2)))"

fun process_results ::
  "crawler \<Rightarrow> crawl_env \<Rightarrow> crawl_state
   \<Rightarrow> ((string \<times> int) \<times> (py_error + (CrawlResult option \<times> string list))) list \<Rightarrow> crawl_state" where
  "process_results cfg env st [] = st"
| "process_results cfg env st ((item, result_data) # rest) =
     process_results cfg env (handle_result cfg env st item result_data) rest"

text \<open>
  One pass of the outer \<open>while\<close>: \<open>Inl\<close> when the loop is left (its condition is false,
  or the batch came out empty), \<open>Inr\<close> with the state after the body otherwise.
  \<open>asyncio.gather\<close> gives the result of every task of the batch, in batch order.
\<close>

definition crawl_iteration :: "crawler \<Rightarrow> crawl_env \<Rightarrow> crawl_state \<Rightarrow> crawl_state + crawl_state" where
  "crawl_iteration cfg env st =
     (if url_queue st \<noteq> [] \<and> pages_crawled st < max_pages cfg
      then (case drain (max_concurrent cfg) [] (visited_urls st) (url_queue st) of
              (batch, visited, queue) \<Rightarrow>
                (let st1 = st\<lparr> visited_urls := visited, url_queue := queue \<rparr>
                 in if batch = [] then Inl st1
                    else (let results = map (\<lambda>(u, depth). crawl_page env u depth) batch
                          in Inr (process_results cfg env st1 (zip batch results)))))
      else Inl st)"

section \<open>Termination of the main loop\<close>

lemma drain_queue:
  "drain mc batch visited queue = (batch', visited', queue') \<Longrightarrow>
     length queue' \<le> length queue \<and> (batch' \<noteq> batch \<longrightarrow> length queue' < length queue)"
proof (induction mc batch visited queue rule: drain.induct)
  case (1 mc batch visited)
  then show ?case by simp
next
  case (2 mc batch visited u depth queue)
  show ?case
  proof (cases "int (length batch) < mc")
    case lt: True
    show ?thesis
    proof (cases "u \<in> visited")
      case True
      then show ?thesis using 2 lt by auto
    next
      case False
      then show ?thesis using 2 lt by auto
    qed
  next
    case False
    then show ?thesis using 2 by simp
  qed
qed

lemma drain_batch:
  "drain mc batch visited queue = (batch', visited', queue') \<Longrightarrow>
     int (length batch') \<le> max (int (length batch)) mc"
proof (induction mc batch visited queue rule: drain.induct)
  case (1 mc batch visited)
  then show ?case by simp
next
  case (2 mc batch visited u depth queue)
  then show ?case by (auto split: if_splits)
qed

lemma crawl_page_links:
  "crawl_page env u depth = Inr (r, links) \<Longrightarrow>
     links = [] \<or> (\<exists>result. r = Some result \<and> is_success result)"
  by (auto simp add: crawl_page_def split: if_splits sum.splits)

lemma enqueue_links_counters:
  "pages_crawled (enqueue_links env depth st links) = pages_crawled st
   \<and> pages_failed (enqueue_links env depth st links) = pages_failed st
   \<and> visited_urls (enqueue_links env depth st links) = visited_urls st"
  by (induction env depth st links rule: enqueue_links.induct) auto

lemma handle_result_crawled:
  assumes "res = crawl_page env (fst item) (snd item)"
  shows "pages_crawled st \<le> pages_crawled (handle_result cfg env st item res)
       \<and> pages_crawled (handle_result cfg env st item res) \<le> pages_crawled st + 1
       \<and> (pages_crawled (handle_result cfg env st item res) = pages_crawled st \<longrightarrow>
            url_queue (handle_result cfg env st item res) = url_queue st)"
proof (cases res)
  case (Inl e)
  then show ?thesis by (simp add: handle_result_def split: prod.splits)
next
  case (Inr p)
  obtain r links where p: "p = (r, links)" by (cases p) auto
  from crawl_page_links [of env "fst item" "snd item" r links] assms Inr p
  have c: "links = [] \<or> (\<exists>result. r = Some result \<and> is_success result)" by simp
  show ?thesis
  proof (cases r)
    case None
    then show ?thesis using Inr p by (simp add: handle_result_def split: prod.splits)
  next
    case (Some result)
    show ?thesis
    proof (cases "is_success result")
      case True
      then show ?thesis using Inr p Some
        by (simp add: handle_result_def Let_def enqueue_links_counters split: prod.splits)
    next
      case False
      then have "links = []" using c Some by simp
      then show ?thesis using Inr p Some False
        by (simp add: handle_result_def Let_def split: prod.splits)
    qed
  qed
qed

lemma process_results_crawled:
  "pages_crawled st
     \<le> pages_crawled (process_results cfg env st
          (zip batch (map (\<lambda>(u, depth). crawl_page env u depth) batch)))
   \<and> pages_crawled (process_results cfg env st
          (zip batch (map (\<lambda>(u, depth). crawl_page env u depth) batch)))
       \<le> pages_crawled st + int (length batch)
   \<and> (pages_crawled (process_results cfg env st
          (zip batch (map (\<lambda>(u, depth). crawl_page env u depth) batch))) = pages_crawled st
       \<longrightarrow> url_queue (process_results cfg env st
              (zip batch (map (\<lambda>(u, depth). crawl_page env u depth) batch))) = url_queue st)"
proof (induction batch arbitrary: st)
  case Nil
  then show ?case by simp
next
  case (Cons item batch)
  let ?res = "crawl_page env (fst item) (snd item)"
  let ?st = "handle_result cfg env st item ?res"
  have h: "pages_crawled st \<le> pages_crawled ?st \<and> pages_crawled ?st \<le> pages_crawled st + 1
         \<and> (pages_crawled ?st = pages_crawled st \<longrightarrow> url_queue ?st = url_queue st)"
    by (rule handle_result_crawled) simp
  have e: "(\<lambda>(u, depth). crawl_page env u depth) item = ?res"
    by (simp add: split_beta)
  show ?case
    using Cons.IH [of ?st] h by (auto simp add: e)
qed

lemma crawl_iteration_decreases:
  assumes "crawl_iteration cfg env st = Inr st'"
  shows "pages_crawled st < max_pages cfg
       \<and> pages_crawled st \<le> pages_crawled st'
       \<and> pages_crawled st' \<le> pages_crawled st + max_concurrent cfg
       \<and> (pages_crawled st' = pages_crawled st \<longrightarrow> length (url_queue st') < length (url_queue st))"
proof -
  from assms have cond: "url_queue st \<noteq> []" "pages_crawled st < max_pages cfg"
    by (auto simp add: crawl_iteration_def split: if_splits)
  obtain batch visited queue where
    d: "drain (max_concurrent cfg) [] (visited_urls st) (url_queue st) = (batch, visited, queue)"
    by (cases "drain (max_concurrent cfg) [] (visited_urls st) (url_queue st)") auto
  let ?st1 = "st\<lparr> visited_urls := visited, url_queue := queue \<rparr>"
  from assms cond d have ne: "batch \<noteq> []"
    and st': "st' = process_results cfg env ?st1
                (zip batch (map (\<lambda>(u, depth). crawl_page env u depth) batch))"
    by (auto simp add: crawl_iteration_def Let_def split: if_splits)
  from drain_queue [OF d] ne have q: "length queue < length (url_queue st)" by simp
  have "1 \<le> int (length batch)" using ne by (cases batch) simp_all
  moreover have "int (length batch) \<le> max 0 (max_concurrent cfg)"
    using drain_batch [OF d] by simp
  ultimately have b: "int (length batch) \<le> max_concurrent cfg" by linarith
  have p: "pages_crawled ?st1 \<le> pages_crawled st'
         \<and> pages_crawled st' \<le> pages_crawled ?st1 + int (length batch)
         \<and> (pages_crawled st' = pages_crawled ?st1 \<longrightarrow> url_queue st' = url_queue ?st1)"
    unfolding st' by (rule process_results_crawled)
  show ?thesis using cond p q b by auto
qed

lemma crawl_iteration_exit:
  "crawl_iteration cfg env st = Inl st' \<Longrightarrow>
     pages_crawled st' = pages_crawled st \<and> pages_failed st' = pages_failed st"
  by (auto simp add: crawl_iteration_def Let_def split: if_splits prod.splits)

text \<open>
  The outer \<open>while\<close>. It terminates: a pass either raises \<open>pages_crawled\<close>, which is
  below \<open>max_pages\<close> when the pass starts, or leaves it alone and the queue shorter (links
  are enqueued for successful pages only).
\<close>

function crawl_loop :: "crawler \<Rightarrow> crawl_env \<Rightarrow> crawl_state \<Rightarrow> crawl_state" where
  "crawl_loop cfg env st =
     (case crawl_iteration cfg env st of
        Inl st' \<Rightarrow> st'
      | Inr st' \<Rightarrow> crawl_loop cfg env st')"
  by pat_completeness auto
termination
proof (relation "measures [\<lambda>(cfg, env, st). nat (max_pages cfg - pages_crawled st),
                           \<lambda>(cfg, env, st). length (url_queue st)]")
  show "wf (measures [\<lambda>(cfg, env, st). nat (max_pages cfg - pages_crawled st),
                      \<lambda>(cfg, env, st). length (url_queue st)])"
    by simp
next
  fix cfg :: crawler and env :: crawl_env and st st' :: crawl_state
  assume "crawl_iteration cfg env st = Inr st'"
  from crawl_iteration_decreases [OF this]
  show "((cfg, env, st'), (cfg, env, st))
          \<in> measures [\<lambda>(cfg, env, st). nat (max_pages cfg - pages_crawled st),
                       \<lambda>(cfg, env, st). length (url_queue st)]"
    by auto
qed

declare crawl_loop.simps [simp del]

text \<open>
  Seeding the queue (\<open>for url in initial_urls\<close>) and \<open>crawl\<close>: the start URL, then the
  sitemap URLs that are internal and crawlable, each at depth 0.
\<close>

fun seed :: "crawl_state \<Rightarrow> string option list \<Rightarrow> crawl_state" where
  "seed st [] = st"
| "seed st (u # us) =
     (if truthy u \<and> the u \<notin> queued_urls st
      then seed (st\<lparr> url_queue := url_queue st @ [(the u, 0)],
                      queued_urls := insert (the u) (queued_urls st) \<rparr>) us
      else seed st us)"

definition crawl :: "crawler \<Rightarrow> crawl_env \<Rightarrow> string \<Rightarrow> string list \<Rightarrow> crawl_state" where
  "crawl cfg env start_url sitemap_urls =
     (let initial_urls =
            normalize_url env start_url
            # map Some (filter (\<lambda>u. is_internal_url env u \<and> is_crawlable_url env u) sitemap_urls)
      in crawl_loop cfg env (seed crawl_state_init initial_urls))"

section \<open>Properties of the main loop\<close>

lemma drain_visited:
  "finite visited \<Longrightarrow> drain mc batch visited queue = (batch', visited', queue') \<Longrightarrow>
     finite visited'
     \<and> int (card visited') = int (card visited) + int (length batch') - int (length batch)"
proof (induction mc batch visited queue rule: drain.induct)
  case (1 mc batch visited)
  then show ?case by simp
next
  case (2 mc batch visited u depth queue)
  show ?case
  proof (cases "int (length batch) < mc")
    case lt: True
    show ?thesis
    proof (cases "u \<in> visited")
      case True
      then show ?thesis using 2 lt by simp
    next
      case False
      then show ?thesis using 2 lt by simp
    qed
  next
    case False
    then show ?thesis using 2 by simp
  qed
qed

lemma handle_result_counters:
  "pages_failed st \<le> pages_failed (handle_result cfg env st item res)
   \<and> pages_crawled (handle_result cfg env st item res)
       + pages_failed (handle_result cfg env st item res)
       \<le> pages_crawled st + pages_failed st + 1
   \<and> visited_urls (handle_result cfg env st item res) = visited_urls st"
  by (auto simp add: handle_result_def Let_def enqueue_links_counters
      split: prod.splits sum.splits option.splits)

lemma process_results_counters:
  "pages_failed st \<le> pages_failed (process_results cfg env st rs)
   \<and> pages_crawled (process_results cfg env st rs) + pages_failed (process_results cfg env st rs)
       \<le> pages_crawled st + pages_failed st + int (length rs)
   \<and> visited_urls (process_results cfg env st rs) = visited_urls st"
proof (induction rs arbitrary: st)
  case Nil
  then show ?case by simp
next
  case (Cons r rs)
  obtain item res where r: "r = (item, res)" by (cases r) auto
  show ?case
    using Cons.IH [of "handle_result cfg env st item res"]
      handle_result_counters [of st cfg env item res] r
    by auto
qed

text \<open>What one pass of the loop body keeps: every count is for a URL newly visited.\<close>

lemma crawl_iteration_counters:
  assumes "crawl_iteration cfg env st = Inr st' \<or> crawl_iteration cfg env st = Inl st'"
    and "finite (visited_urls st)"
    and "pages_crawled st + pages_failed st \<le> int (card (visited_urls st))"
  shows "finite (visited_urls st')
       \<and> pages_failed st \<le> pages_failed st'
       \<and> pages_crawled st' + pages_failed st' \<le> int (card (visited_urls st'))"
proof (cases "url_queue st \<noteq> [] \<and> pages_crawled st < max_pages cfg")
  case False
  then have "st' = st" using assms(1) by (auto simp add: crawl_iteration_def)
  then show ?thesis using assms by simp
next
  case True
  obtain batch visited queue where
    d: "drain (max_concurrent cfg) [] (visited_urls st) (url_queue st) = (batch, visited, queue)"
    by (cases "drain (max_concurrent cfg) [] (visited_urls st) (url_queue st)") auto
  let ?st1 = "st\<lparr> visited_urls := visited, url_queue := queue \<rparr>"
  let ?rs = "zip batch (map (\<lambda>(u, depth). crawl_page env u depth) batch)"
  from drain_visited [OF assms(2) d]
  have v: "finite visited" "int (card visited) = int (card (visited_urls st)) + int (length batch)"
    by simp_all
  show ?thesis
  proof (cases "batch = []")
    case True
    then have "st' = ?st1" using assms(1) \<open>url_queue st \<noteq> [] \<and> pages_crawled st < max_pages cfg\<close> d
      by (auto simp add: crawl_iteration_def)
    then show ?thesis using v assms(3) by simp
  next
    case False
    then have st': "st' = process_results cfg env ?st1 ?rs"
      using assms(1) \<open>url_queue st \<noteq> [] \<and> pages_crawled st < max_pages cfg\<close> d
      by (auto simp add: crawl_iteration_def Let_def)
    have "length ?rs = length batch" by simp
    then show ?thesis
      using process_results_counters [of ?st1 cfg env ?rs] v assms(3) st' by simp
  qed
qed

lemma crawl_loop_counters:
  "finite (visited_urls st) \<Longrightarrow> 0 \<le> pages_failed st \<Longrightarrow>
   pages_crawled st + pages_failed st \<le> int (card (visited_urls st)) \<Longrightarrow>
     finite (visited_urls (crawl_loop cfg env st))
     \<and> 0 \<le> pages_failed (crawl_loop cfg env st)
     \<and> pages_crawled (crawl_loop cfg env st) + pages_failed (crawl_loop cfg env st)
         \<le> int (card (visited_urls (crawl_loop cfg env st)))"
proof (induction cfg env st rule: crawl_loop.induct)
  case (1 cfg env st)
  show ?case
  proof (cases "crawl_iteration cfg env st")
    case (Inl st')
    have "crawl_loop cfg env st = st'"
      by (subst crawl_loop.simps) (simp add: Inl)
    then show ?thesis
      using crawl_iteration_counters [of cfg env st st'] Inl "1.prems" by auto
  next
    case (Inr st')
    have e: "crawl_loop cfg env st = crawl_loop cfg env st'"
      by (subst crawl_loop.simps) (simp add: Inr)
    from crawl_iteration_counters [of cfg env st st'] Inr "1.prems"
    have "finite (visited_urls st')" "0 \<le> pages_failed st'"
      "pages_crawled st' + pages_failed st' \<le> int (card (visited_urls st'))"
      by auto
    from "1.IH" [OF Inr this] show ?thesis by (simp add: e)
  qed
qed

text \<open>
  \<open>pages_crawled\<close> never falls, and the body runs only from a state below
  \<open>max_pages\<close>, where it adds at most the size of one batch.
\<close>

lemma crawl_loop_crawled:
  "pages_crawled st \<le> b \<Longrightarrow> max_pages cfg + max_concurrent cfg - 1 \<le> b \<Longrightarrow>
     pages_crawled st \<le> pages_crawled (crawl_loop cfg env st)
     \<and> pages_crawled (crawl_loop cfg env st) \<le> b"
proof (induction cfg env st rule: crawl_loop.induct)
  case (1 cfg env st)
  show ?case
  proof (cases "crawl_iteration cfg env st")
    case (Inl st')
    have "crawl_loop cfg env st = st'"
      by (subst crawl_loop.simps) (simp add: Inl)
    then show ?thesis using crawl_iteration_exit [OF Inl] "1.prems" by simp
  next
    case (Inr st')
    have e: "crawl_loop cfg env st = crawl_loop cfg env st'"
      by (subst crawl_loop.simps) (simp add: Inr)
    from crawl_iteration_decreases [OF Inr] "1.prems"
    have s: "pages_crawled st \<le> pages_crawled st'" "pages_crawled st' \<le> b"
      by auto
    from "1.IH" [OF Inr s(2) "1.prems"(2)] s(1) show ?thesis by (simp add: e)
  qed
qed

lemma seed_counters:
  "pages_crawled (seed st us) = pages_crawled st \<and> pages_failed (seed st us) = pages_failed st
   \<and> visited_urls (seed st us) = visited_urls st"
  by (induction st us rule: seed.induct) auto

lemma seed_init:
  "pages_crawled (seed crawl_state_init us) = 0 \<and> pages_failed (seed crawl_state_init us) = 0
   \<and> visited_urls (seed crawl_state_init us) = {}"
  using seed_counters [of crawl_state_init us] by (simp add: crawl_state_init_def)

text \<open>
  The final \<open>pages_crawled\<close> is below \<open>max_pages + max_concurrent\<close>; this is the most
  that can be said of it for batches of more than one URL.
\<close>

lemma crawl_overshoot_bound:
  "pages_crawled (crawl cfg env start_url sitemap_urls)
     \<le> max 0 (max_pages cfg + max_concurrent cfg - 1)"
proof -
  define st0 where "st0 = seed crawl_state_init
     (normalize_url env start_url
      # map Some (filter (\<lambda>u. is_internal_url env u \<and> is_crawlable_url env u) sitemap_urls))"
  have "pages_crawled st0 = 0" unfolding st0_def using seed_init by blast
  then have "pages_crawled (crawl_loop cfg env st0) \<le> max 0 (max_pages cfg + max_concurrent cfg - 1)"
    using crawl_loop_crawled [of st0 "max 0 (max_pages cfg + max_concurrent cfg - 1)" cfg env]
    by simp
  then show ?thesis by (simp add: crawl_def Let_def st0_def)
qed

text \<open>
  Claim C3, as the code has it. The body of the loop runs only while
  \<open>pages_crawled < max_pages\<close>, and failed fetches are not counted against
  \<open>max_pages\<close>: at the end of every run both counters are non-negative and
  \<open>pages_crawled + pages_failed\<close> is at most the number of URLs visited. When batches
  hold one URL (\<open>max_concurrent = 1\<close>) and \<open>max_pages\<close> is not negative,
  \<open>pages_crawled \<le> max_pages\<close>.
\<close>

theorem crawl_counters:
  "(\<forall>st st'. crawl_iteration cfg env st = Inr st' \<longrightarrow> pages_crawled st < max_pages cfg)
   \<and> 0 \<le> pages_crawled (crawl cfg env start_url sitemap_urls)
   \<and> 0 \<le> pages_failed (crawl cfg env start_url sitemap_urls)
   \<and> finite (visited_urls (crawl cfg env start_url sitemap_urls))
   \<and> pages_crawled (crawl cfg env start_url sitemap_urls)
       + pages_failed (crawl cfg env start_url sitemap_urls)
       \<le> int (card (visited_urls (crawl cfg env start_url sitemap_urls)))
   \<and> (max_concurrent cfg = 1 \<and> 0 \<le> max_pages cfg \<longrightarrow>
        pages_crawled (crawl cfg env start_url sitemap_urls) \<le> max_pages cfg)"
proof -
  define st0 where "st0 = seed crawl_state_init
     (normalize_url env start_url
      # map Some (filter (\<lambda>u. is_internal_url env u \<and> is_crawlable_url env u) sitemap_urls))"
  have c: "crawl cfg env start_url sitemap_urls = crawl_loop cfg env st0"
    by (simp add: crawl_def Let_def st0_def)
  have i: "pages_crawled st0 = 0" "pages_failed st0 = 0" "visited_urls st0 = {}"
    unfolding st0_def using seed_init by blast+
  have a: "\<forall>st st'. crawl_iteration cfg env st = Inr st' \<longrightarrow> pages_crawled st < max_pages cfg"
    using crawl_iteration_decreases by blast
  have lo: "0 \<le> pages_crawled (crawl_loop cfg env st0)"
    using crawl_loop_crawled [of st0 "max 0 (max_pages cfg + max_concurrent cfg - 1)" cfg env] i
    by simp
  have v: "finite (visited_urls (crawl_loop cfg env st0))
     \<and> 0 \<le> pages_failed (crawl_loop cfg env st0)
     \<and> pages_crawled (crawl_loop cfg env st0) + pages_failed (crawl_loop cfg env st0)
         \<le> int (card (visited_urls (crawl_loop cfg env st0)))"
    by (rule crawl_loop_counters) (simp_all add: i)
  have one: "max_concurrent cfg = 1 \<and> 0 \<le> max_pages cfg \<longrightarrow>
        pages_crawled (crawl_loop cfg env st0) \<le> max_pages cfg"
    using crawl_loop_crawled [of st0 "max_pages cfg" cfg env] i by simp
  show ?thesis using a lo v one unfolding c by blast
qed
text \<open>
  A site of two pages, the start URL and one URL from its sitemap, with no links; every
  fetch gives the same kind of result. \<open>page_failed\<close> is what \<open>_fetch_with_http\<close>
  returns when the request raises.
\<close>

definition page_ok :: "string \<Rightarrow> CrawlResult" where
  "page_ok u =
     \<lparr> cr_url = u, cr_final_url = u, cr_status_code = 200, cr_html = ''<html></html>'',
       cr_headers = [], cr_load_time_ms = 10, cr_page_size_bytes = 13, cr_error = None \<rparr>"

definition page_failed :: "string \<Rightarrow> CrawlResult" where
  "page_failed u =
     \<lparr> cr_url = u, cr_final_url = u, cr_status_code = 0, cr_html = [],
       cr_headers = [], cr_load_time_ms = 10, cr_page_size_bytes = 0,
       cr_error = Some ''timed out'' \<rparr>"

definition two_pages :: "(string \<Rightarrow> CrawlResult) \<Rightarrow> crawl_env" where
  "two_pages result =
     \<lparr> robots_allowed = (\<lambda>u. True), fetch_url = (\<lambda>u. Inr (result u)),
       extract_links = (\<lambda>html u. []), is_internal_url = (\<lambda>u. True),
       is_crawlable_url = (\<lambda>u. True), normalize_url = (\<lambda>u. if u = [] then None else Some u) \<rparr>"

lemma two_pages_ok_batch2:
  "crawl \<lparr> max_depth = 0, max_pages = 1, max_concurrent = 2 \<rparr> (two_pages page_ok)
     ''https://example.test'' [''https://example.test/a'']
   = \<lparr> visited_urls = {''https://example.test'', ''https://example.test/a''},
       queued_urls = {''https://example.test'', ''https://example.test/a''},
       failed_urls = {}, url_queue = [], pages_crawled = 2, pages_failed = 0,
       emitted = [(page_ok ''https://example.test'', 0), (page_ok ''https://example.test/a'', 0)] \<rparr>"
  by (simp add: crawl_def crawl_loop.simps crawl_iteration_def crawl_state_init_def two_pages_def
      crawl_page_def handle_result_def is_success_def page_ok_def Let_def insert_commute)

lemma two_pages_failed_batch2:
  "crawl \<lparr> max_depth = 0, max_pages = 1, max_concurrent = 2 \<rparr> (two_pages page_failed)
     ''https://example.test'' [''https://example.test/a'']
   = \<lparr> visited_urls = {''https://example.test'', ''https://example.test/a''},
       queued_urls = {''https://example.test'', ''https://example.test/a''},
       failed_urls = {''https://example.test'', ''https://example.test/a''},
       url_queue = [], pages_crawled = 0, pages_failed = 2,
       emitted = [(page_failed ''https://example.test'', 0),
                  (page_failed ''https://example.test/a'', 0)] \<rparr>"
  by (simp add: crawl_def crawl_loop.simps crawl_iteration_def crawl_state_init_def two_pages_def
      crawl_page_def handle_result_def is_success_def page_failed_def Let_def insert_commute)

lemma two_pages_ok_batch1:
  "crawl \<lparr> max_depth = 0, max_pages = 1, max_concurrent = 1 \<rparr> (two_pages page_ok)
     ''https://example.test'' [''https://example.test/a'']
   = \<lparr> visited_urls = {''https://example.test''},
       queued_urls = {''https://example.test'', ''https://example.test/a''},
       failed_urls = {}, url_queue = [(''https://example.test/a'', 0)],
       pages_crawled = 1, pages_failed = 0,
       emitted = [(page_ok ''https://example.test'', 0)] \<rparr>"
  by (simp add: crawl_def crawl_loop.simps crawl_iteration_def crawl_state_init_def two_pages_def
      crawl_page_def handle_result_def is_success_def page_ok_def Let_def insert_commute)

text \<open>
  With one URL per batch the run of the two-page site stops at \<open>max_pages = 1\<close>, the
  second URL still queued.
\<close>

theorem crawl_counters_witness:
  "pages_crawled (crawl \<lparr> max_depth = 0, max_pages = 1, max_concurrent = 1 \<rparr>
       (two_pages page_ok) ''https://example.test'' [''https://example.test/a'']) = 1
   \<and> pages_crawled (crawl \<lparr> max_depth = 0, max_pages = 1, max_concurrent = 1 \<rparr>
       (two_pages page_ok) ''https://example.test'' [''https://example.test/a''])
       \<le> max_pages \<lparr> max_depth = 0, max_pages = 1, max_concurrent = 1 \<rparr>
   \<and> pages_crawled (crawl \<lparr> max_depth = 0, max_pages = 1, max_concurrent = 1 \<rparr>
       (two_pages page_ok) ''https://example.test'' [''https://example.test/a''])
     + pages_failed (crawl \<lparr> max_depth = 0, max_pages = 1, max_concurrent = 1 \<rparr>
       (two_pages page_ok) ''https://example.test'' [''https://example.test/a''])
       \<le> int (card (visited_urls (crawl \<lparr> max_depth = 0, max_pages = 1, max_concurrent = 1 \<rparr>
       (two_pages page_ok) ''https://example.test'' [''https://example.test/a''])))"
proof -
  have "max_concurrent \<lparr> max_depth = 0, max_pages = 1, max_concurrent = 1 \<rparr> = 1
      \<and> 0 \<le> max_pages \<lparr> max_depth = 0, max_pages = 1, max_concurrent = 1 \<rparr>"
    by simp
  then show ?thesis
    using crawl_counters [of "\<lparr> max_depth = 0, max_pages = 1, max_concurrent = 1 \<rparr>"
        "two_pages page_ok" "''https://example.test''" "[''https://example.test/a'']"]
      two_pages_ok_batch1
    by simp
qed

text \<open>
  Against claim C3 as stated, with \<open>max_pages = 1\<close> and batches of two: when both
  fetches fail, \<open>pages_crawled + pages_failed = 2\<close>; when both succeed,
  \<open>pages_crawled = 2\<close>.
\<close>

theorem crawl_counters_counterexample:
  "pages_crawled (crawl \<lparr> max_depth = 0, max_pages = 1, max_concurrent = 2 \<rparr>
       (two_pages page_failed) ''https://example.test'' [''https://example.test/a''])
     + pages_failed (crawl \<lparr> max_depth = 0, max_pages = 1, max_concurrent = 2 \<rparr>
       (two_pages page_failed) ''https://example.test'' [''https://example.test/a'']) = 2
   \<and> pages_crawled (crawl \<lparr> max_depth = 0, max_pages = 1, max_concurrent = 2 \<rparr>
       (two_pages page_ok) ''https://example.test'' [''https://example.test/a'']) = 2
   \<and> max_pages \<lparr> max_depth = 0, max_pages = 1, max_concurrent = 2 \<rparr> = 1"
  by (simp add: two_pages_failed_batch2 two_pages_ok_batch2)

section \<open>Analyzer\<close>

text \<open>
  The parsed document (\<open>BeautifulSoup(html, "lxml")\<close>) is seen through the queries the
  analyzer makes of it; each field of \<open>soup\<close> is the answer to one query. The HTML
  parser, the readability extractor (trafilatura), the structured-data extractor
  (extruct) and urllib are library code, taken as parameters.
\<close>

record soup =
  title_string :: "string option"
  meta_description_content :: "string option"
  meta_robots_content :: "string option"
  canonical_href :: "string option"
  html_lang :: "string option"
  hreflang_tags :: nat
  heading_texts :: "nat \<Rightarrow> string list"
  soup_text :: string
  img_alts :: "string option list"
  anchors :: "(string \<times> string \<times> string list) list"
  og_metas :: "(string \<times> string) list"
  twitter_metas :: "(string \<times> string) list"
  viewport_meta :: bool

record extruct_data =
  json_ld :: "json list"
  microdata :: "json list"
  rdfa :: "json list"

record html_lib =
  parse_html :: "string \<Rightarrow> soup"
  trafilatura_extract :: "string \<Rightarrow> string option"
  extruct_extract :: "string \<Rightarrow> string \<Rightarrow> py_error + extruct_data"
  urljoin :: "string \<Rightarrow> string \<Rightarrow> string"
  url_scheme :: "string \<Rightarrow> string"
  url_netloc :: "string \<Rightarrow> string"

definition SEO_SCHEMA_TYPES :: "string list" where
  "SEO_SCHEMA_TYPES =
     [''Article'', ''NewsArticle'', ''BlogPosting'', ''WebPage'', ''Product'',
      ''LocalBusiness'', ''Organization'', ''Person'', ''Event'', ''FAQPage'',
      ''HowTo'', ''Review'', ''AggregateRating'', ''BreadcrumbList'', ''Recipe'',
      ''VideoObject'', ''ImageObject'', ''SoftwareApplication'', ''Course'']"

text \<open>\<open>d[k] = v\<close> on a dict kept in insertion order.\<close>

fun dict_set :: "('k \<times> 'v) list \<Rightarrow> 'k \<Rightarrow> 'v \<Rightarrow> ('k \<times> 'v) list" where
  "dict_set [] k v = [(k, v)]"
| "dict_set ((k', v') # d) k v = (if k' = k then (k, v) # d else (k', v') # dict_set d k v)"

definition extract_basic_seo :: "soup \<Rightarrow> string \<Rightarrow> AnalyzedPage \<Rightarrow> AnalyzedPage" where
  "extract_basic_seo sp page_url page =
     (let p1 = (if truthy (title_string sp)
                then page\<lparr> title := Some (take 512 (py_strip (the (title_string sp)))),
                           title_length := int (length (take 512 (py_strip (the (title_string sp))))) \<rparr>
                else page);
          p2 = (if truthy (meta_description_content sp)
                then p1\<lparr> meta_description := Some (py_strip (the (meta_description_content sp))),
                         meta_description_length :=
                           int (length (py_strip (the (meta_description_content sp)))) \<rparr>
                else p1);
          p3 = (if truthy (meta_robots_content sp)
                then p2\<lparr> meta_robots := Some (py_strip (py_lower (the (meta_robots_content sp)))),
                         is_indexable :=
                           \<not> py_contains ''noindex''
                               (py_strip (py_lower (the (meta_robots_content sp)))) \<rparr>
                else p2);
          p4 = (if truthy (canonical_href sp)
                then p3\<lparr> canonical_tag := Some (py_strip (the (canonical_href sp))),
                         canonical_url := Some (py_strip (the (canonical_href sp))),
                         is_canonical :=
                           (if py_strip (the (canonical_href sp)) \<noteq> []
                               \<and> py_strip (the (canonical_href sp)) \<noteq> page_url
                            then False else is_canonical p3) \<rparr>
                else p3);
          p5 = (if truthy (html_lang sp)
                then p4\<lparr> language := Some (take 10 (the (html_lang sp))) \<rparr>
                else p4)
      in p5\<lparr> has_hreflang := (hreflang_tags sp > 0) \<rparr>)"

definition heading_level :: "soup \<Rightarrow> nat \<Rightarrow> string list" where
  "heading_level sp level = map (take 255) (filter (\<lambda>t. t \<noteq> []) (heading_texts sp level))"

definition extract_headings :: "soup \<Rightarrow> AnalyzedPage \<Rightarrow> AnalyzedPage" where
  "extract_headings sp page =
     page\<lparr> h1_tags := heading_level sp 1, h2_tags := heading_level sp 2,
           h3_tags := heading_level sp 3, h4_tags := heading_level sp 4,
           h5_tags := heading_level sp 5, h6_tags := heading_level sp 6 \<rparr>"

text \<open>
  \<open>_extract_content\<close>: the reading time is \<open>max(1, int((word_count / 225) * 60))\<close>,
  set only when the extractor returned text. The quotient and the product are doubles,
  each rounded by \<open>fl\<close>; \<open>int\<close> truncates the rounded product. The ratio
  \<open>round(text_length / html_length, 3)\<close> rounds the double quotient.
\<close>

definition reading_time :: "int \<Rightarrow> int" where
  "reading_time wc = max 1 (py_int (fl (fl (real_of_int wc / 225) * 60)))"

definition extract_content :: "html_lib \<Rightarrow> soup \<Rightarrow> string \<Rightarrow> AnalyzedPage \<Rightarrow> AnalyzedPage" where
  "extract_content lib sp html page =
     (let extracted = trafilatura_extract lib html;
          p1 = (if truthy extracted
                then (let wc = int (length (py_split (the extracted)))
                      in page\<lparr> content_text := the extracted,
                               word_count := wc,
                               reading_time_seconds := reading_time wc \<rparr>)
                else page);
          html_length = length html
      in if html_length > 0
         then p1\<lparr> text_html_ratio :=
                  py_round3 (fl (real (length (soup_text sp)) / real html_length)) \<rparr>
         else p1)"

definition alt_missing :: "string option \<Rightarrow> bool" where
  "alt_missing alt = (case alt of None \<Rightarrow> True | Some a \<Rightarrow> py_strip a = [])"

definition extract_images :: "soup \<Rightarrow> AnalyzedPage \<Rightarrow> AnalyzedPage" where
  "extract_images sp page =
     page\<lparr> total_images := int (length (img_alts sp)),
           images_missing_alt := int (length (filter alt_missing (img_alts sp))),
           images_with_alt := int (length (filter (\<lambda>alt. \<not> alt_missing alt) (img_alts sp))) \<rparr>"

text \<open>The body of the loop over \<open><a href>\<close> tags: the link record, or nothing.\<close>

definition link_of :: "html_lib \<Rightarrow> string \<Rightarrow> string \<times> string \<times> string list \<Rightarrow> link_data option" where
  "link_of lib page_url tag =
     (case tag of (raw_href, text, rel) \<Rightarrow>
        (let href = py_strip raw_href
         in if href = [] \<or> prefix ''#'' href \<or> prefix ''mailto:'' href \<or> prefix ''tel:'' href
            then None
            else (let absolute_url = urljoin lib page_url href
                  in if url_scheme lib absolute_url \<notin> {''http'', ''https''} then None
                     else Some \<lparr> link_url = absolute_url,
                                 anchor_text = take 255 text,
                                 is_nofollow = (''nofollow'' \<in> set rel),
                                 is_internal =
                                   (py_remove ''www.'' (url_netloc lib absolute_url)
                                    = py_remove ''www.'' (url_netloc lib page_url)) \<rparr>)))"

definition extract_links_page :: "html_lib \<Rightarrow> soup \<Rightarrow> string \<Rightarrow> AnalyzedPage \<Rightarrow> AnalyzedPage" where
  "extract_links_page lib sp page_url page =
     (let links = List.map_filter (link_of lib page_url) (anchors sp);
          internal = internal_links page @ filter is_internal links;
          external = external_links page @ filter (\<lambda>l. \<not> is_internal l) links
      in page\<lparr> internal_links := internal, external_links := external,
               internal_links_count := int (length internal),
               external_links_count := int (length external) \<rparr>)"

text \<open>
  The \<open>@type\<close> names of one JSON-LD item; \<open>None\<close> when adding to the set raises
  \<open>TypeError\<close> (a list or an object is not hashable).
\<close>

fun type_name :: "json \<Rightarrow> string list option" where
  "type_name (JStr s) = Some [s]"
| "type_name (JArr xs) = None"
| "type_name (JObj kvs) = None"
| "type_name j = Some []"

fun truthy_json :: "json \<Rightarrow> bool" where
  "truthy_json JNull = False"
| "truthy_json (JBool b) = b"
| "truthy_json (JNum n) = (n \<noteq> 0)"
| "truthy_json (JStr s) = (s \<noteq> [])"
| "truthy_json (JArr xs) = (xs \<noteq> [])"
| "truthy_json (JObj kvs) = (kvs \<noteq> [])"

fun all_some :: "'a list option list \<Rightarrow> 'a list option" where
  "all_some [] = Some []"
| "all_some (None # xs) = None"
| "all_some (Some x # xs) = (case all_some xs of None \<Rightarrow> None | Some ys \<Rightarrow> Some (x @ ys))"

fun item_types :: "json \<Rightarrow> string list option" where
  "item_types (JObj kvs) =
     (case map_of kvs ''@type'' of
        None \<Rightarrow> Some []
      | Some (JArr ts) \<Rightarrow> all_some (map type_name ts)
      | Some t \<Rightarrow> (if truthy_json t then type_name t else Some []))"
| "item_types j = Some []"

definition extract_structured_data ::
  "html_lib \<Rightarrow> string \<Rightarrow> string \<Rightarrow> AnalyzedPage \<Rightarrow> AnalyzedPage" where
  "extract_structured_data lib html page_url page =
     (case extruct_extract lib html page_url of
        Inl e \<Rightarrow> page
      | Inr data \<Rightarrow>
          if json_ld data \<noteq> [] \<or> microdata data \<noteq> [] \<or> rdfa data \<noteq> []
          then (let p1 = page\<lparr> has_schema_markup := True,
                               structured_data :=
                                 [(''json_ld'', json_ld data), (''microdata'', microdata data),
                                  (''rdfa'', rdfa data)] \<rparr>
                in case all_some (map item_types (json_ld data)) of
                     None \<Rightarrow> p1
                   | Some ts \<Rightarrow>
                       p1\<lparr> schema_types := remdups (filter (\<lambda>t. t \<in> set SEO_SCHEMA_TYPES) ts) \<rparr>)
          else page)"

text \<open>The dict built from the \<open>og:\<close> or \<open>twitter:\<close> meta tags.\<close>

fun meta_dict :: "string \<Rightarrow> (string \<times> string) list \<Rightarrow> (string \<times> string) list \<Rightarrow> (string \<times> string) list" where
  "meta_dict pre d [] = d"
| "meta_dict pre d ((name, content) # tags) =
     (if py_remove pre name \<noteq> [] \<and> content \<noteq> []
      then meta_dict pre (dict_set d (py_remove pre name) content) tags
      else meta_dict pre d tags)"

definition extract_social_meta :: "soup \<Rightarrow> AnalyzedPage \<Rightarrow> AnalyzedPage" where
  "extract_social_meta sp page =
     (let og_data = meta_dict ''og:'' [] (og_metas sp);
          p1 = (if og_data \<noteq> []
                then page\<lparr> has_open_graph := True, open_graph_data := og_data \<rparr>
                else page);
          twitter_data = meta_dict ''twitter:'' [] (twitter_metas sp)
      in if twitter_data \<noteq> []
         then p1\<lparr> has_twitter_card := True, twitter_card_data := twitter_data \<rparr>
         else p1)"

definition extract_technical_signals :: "soup \<Rightarrow> AnalyzedPage \<Rightarrow> AnalyzedPage" where
  "extract_technical_signals sp page = page\<lparr> has_viewport_meta := viewport_meta sp \<rparr>"
definition STOP_WORDS :: "string set" where
  "STOP_WORDS = set
     [''a'', ''an'', ''the'', ''and'', ''or'', ''but'', ''in'', ''on'', ''at'', ''to'', ''for'',
      ''of'', ''with'', ''by'', ''from'', ''up'', ''about'', ''into'', ''through'', ''during'',
      ''is'', ''are'', ''was'', ''were'', ''be'', ''been'', ''being'', ''have'', ''has'', ''had'',
      ''do'', ''does'', ''did'', ''will'', ''would'', ''could'', ''should'', ''may'', ''might'',
      ''shall'', ''can'', ''need'', ''dare'', ''ought'', ''used'', ''it'', ''its'', ''this'',
      ''that'', ''these'', ''those'', ''i'', ''me'', ''my'', ''we'', ''our'', ''you'', ''your'',
      ''he'', ''his'', ''she'', ''her'', ''they'', ''their'', ''what'', ''which'', ''who'',
      ''when'', ''where'', ''why'', ''how'', ''all'', ''each'', ''every'', ''both'', ''few'',
      ''more'', ''most'', ''other'', ''some'', ''such'', ''no'', ''not'', ''only'', ''same'',
      ''so'', ''than'', ''too'', ''very'', ''just'', ''also'', ''as'', ''if'', ''then'']"

text \<open>
  The character class \<open>[a-z0-9\s\-']\<close>; \<open>re.sub\<close> replaces every other character
  with a space.
\<close>

definition keep_char :: "char \<Rightarrow> bool" where
  "keep_char c =
     (let n = of_char c :: nat
      in (97 \<le> n \<and> n \<le> 122) \<or> (48 \<le> n \<and> n \<le> 57) \<or> py_isspace c
         \<or> c = CHR ''-'' \<or> c = CHR 0x27)"

definition clean_text :: "string \<Rightarrow> string" where
  "clean_text s = map (\<lambda>c. if keep_char c then c else CHR '' '') (py_lower s)"

text \<open>
  The comprehension \<open>[t.strip("'-") for t in tokens if len(t) > 2 and t not in
  STOP_WORDS and t.strip("'-")]\<close>: the length and the stop-word tests read the token
  before it is stripped.
\<close>

definition meaningful_tokens :: "string list \<Rightarrow> string list" where
  "meaningful_tokens tokens =
     map (py_strip_chars [CHR 0x27, CHR ''-''])
       (filter (\<lambda>t. length t > 2 \<and> t \<notin> STOP_WORDS \<and> py_strip_chars [CHR 0x27, CHR ''-''] t \<noteq> [])
          tokens)"

text \<open>\<open>Counter(xs)\<close>: the counts, keys in order of first occurrence.\<close>

fun counter_add :: "(string \<times> nat) list \<Rightarrow> string \<Rightarrow> (string \<times> nat) list" where
  "counter_add [] k = [(k, 1)]"
| "counter_add ((k', n) # d) k = (if k' = k then (k', n + 1) # d else (k', n) # counter_add d k)"

definition Counter :: "string list \<Rightarrow> (string \<times> nat) list" where
  "Counter xs = foldl counter_add [] xs"

text \<open>
  \<open>most_common(n)\<close>: the \<open>n\<close> largest counts, largest first, keys of equal count in
  the order the counter holds them (the sort is stable).
\<close>

definition most_common :: "nat \<Rightarrow> (string \<times> nat) list \<Rightarrow> (string \<times> nat) list" where
  "most_common n d = take n (sort_key (\<lambda>(k, c). - int c) d)"

fun bigrams_of :: "string list \<Rightarrow> string list" where
  "bigrams_of (x # y # rest) = (x @ '' '' @ y) # bigrams_of (y # rest)"
| "bigrams_of xs = []"

fun combine :: "(string \<times> nat) list \<Rightarrow> (string \<times> nat) list \<Rightarrow> (string \<times> nat) list" where
  "combine d [] = d"
| "combine d ((term, count) # rest) = combine (dict_set d term count) rest"

definition compute_keyword_frequencies :: "AnalyzedPage \<Rightarrow> AnalyzedPage" where
  "compute_keyword_frequencies page =
     (if content_text page = [] then page
      else (let tokens = py_split (clean_text (content_text page));
                meaningful = meaningful_tokens tokens;
                unigram_counts = Counter meaningful;
                bigram_counts = Counter (bigrams_of meaningful);
                combined = combine [] (most_common 150 unigram_counts);
                combined = combine combined
                             (filter (\<lambda>(term, count). count \<ge> 2) (most_common 50 bigram_counts))
            in page\<lparr> keyword_frequencies := combined \<rparr>))"

text \<open>\<open>SEOAnalyzer.analyze\<close>.\<close>

definition analyze :: "html_lib \<Rightarrow> CrawlResult \<Rightarrow> int \<Rightarrow> AnalyzedPage" where
  "analyze lib crawl_result depth =
     (let page = AnalyzedPage_init
            \<lparr> url := cr_url crawl_result,
              status_code := cr_status_code crawl_result,
              load_time_ms := cr_load_time_ms crawl_result,
              page_size_bytes := cr_page_size_bytes crawl_result,
              is_https := prefix ''https://'' (cr_url crawl_result),
              headers := cr_headers crawl_result,
              raw_html := cr_html crawl_result \<rparr>
      in if cr_html crawl_result = [] then page
         else (let sp = parse_html lib (cr_html crawl_result);
                   p1 = extract_basic_seo sp (cr_final_url crawl_result) page;
                   p2 = extract_headings sp p1;
                   p3 = extract_content lib sp (cr_html crawl_result) p2;
                   p4 = extract_images sp p3;
                   p5 = extract_links_page lib sp (cr_final_url crawl_result) p4;
                   p6 = extract_structured_data lib (cr_html crawl_result)
                          (cr_final_url crawl_result) p5;
                   p7 = extract_social_meta sp p6;
                   p8 = extract_technical_signals sp p7
               in compute_keyword_frequencies p8))"

section \<open>Properties of the analyzer\<close>

text \<open>Only \<open>_extract_content\<close> writes the content signals.\<close>

lemma basic_seo_frame:
  "word_count (extract_basic_seo sp u p) = word_count p
   \<and> reading_time_seconds (extract_basic_seo sp u p) = reading_time_seconds p
   \<and> content_text (extract_basic_seo sp u p) = content_text p"
  by (simp add: extract_basic_seo_def Let_def)

lemma headings_frame:
  "word_count (extract_headings sp p) = word_count p
   \<and> reading_time_seconds (extract_headings sp p) = reading_time_seconds p
   \<and> content_text (extract_headings sp p) = content_text p"
  by (simp add: extract_headings_def)

lemma images_frame:
  "word_count (extract_images sp p) = word_count p
   \<and> reading_time_seconds (extract_images sp p) = reading_time_seconds p
   \<and> content_text (extract_images sp p) = content_text p"
  by (simp add: extract_images_def)

lemma links_frame:
  "word_count (extract_links_page lib sp u p) = word_count p
   \<and> reading_time_seconds (extract_links_page lib sp u p) = reading_time_seconds p
   \<and> content_text (extract_links_page lib sp u p) = content_text p"
  by (simp add: extract_links_page_def Let_def)

lemma structured_data_frame:
  "word_count (extract_structured_data lib h u p) = word_count p
   \<and> reading_time_seconds (extract_structured_data lib h u p) = reading_time_seconds p
   \<and> content_text (extract_structured_data lib h u p) = content_text p"
  by (simp add: extract_structured_data_def Let_def split: sum.splits option.splits)

lemma social_meta_frame:
  "word_count (extract_social_meta sp p) = word_count p
   \<and> reading_time_seconds (extract_social_meta sp p) = reading_time_seconds p
   \<and> content_text (extract_social_meta sp p) = content_text p"
  by (simp add: extract_social_meta_def Let_def)

lemma technical_frame:
  "word_count (extract_technical_signals sp p) = word_count p
   \<and> reading_time_seconds (extract_technical_signals sp p) = reading_time_seconds p
   \<and> content_text (extract_technical_signals sp p) = content_text p"
  by (simp add: extract_technical_signals_def)

lemma keyword_frame:
  "word_count (compute_keyword_frequencies p) = word_count p
   \<and> reading_time_seconds (compute_keyword_frequencies p) = reading_time_seconds p
   \<and> content_text (compute_keyword_frequencies p) = content_text p"
  by (simp add: compute_keyword_frequencies_def Let_def)

text \<open>
  Rounding to a double: \<open>fl\<close> moves a non-negative number by at most \<open>2^-53\<close> of itself,
  and is computed from the binade of its argument.
\<close>

lemma py_round_near: "\<bar>of_int (py_round y) - y\<bar> \<le> 1 / 2"
proof -
  have "of_int \<lfloor>y\<rfloor> \<le> y" "y < of_int \<lfloor>y\<rfloor> + 1" by linarith+
  then show ?thesis by (auto simp add: py_round_def Let_def)
qed

lemma fl_zero: "fl 0 = 0"
  by (simp add: fl_def)

lemma fl_pos_eq:
  assumes "0 < x"
  shows "fl x = of_int (py_round (x / 2 powr (of_int \<lfloor>log 2 x\<rfloor> - 52)))
                * 2 powr (of_int \<lfloor>log 2 x\<rfloor> - 52)"
  using assms by (simp add: fl_def Let_def)

lemma floor_log_le:
  assumes "0 < x"
  shows "2 powr (of_int \<lfloor>log 2 x\<rfloor>) \<le> x"
  using floor_log_eq_powr_iff [of x 2 "\<lfloor>log 2 x\<rfloor>"] assms by simp

lemma fl_err:
  assumes "0 \<le> x"
  shows "\<bar>fl x - x\<bar> \<le> x / 2 ^ 53"
proof (cases "x = 0")
  case True
  then show ?thesis by (simp add: fl_zero)
next
  case False
  then have x: "0 < x" using assms by simp
  define e where "e = \<lfloor>log 2 x\<rfloor>"
  define u :: real where "u = 2 powr (of_int e - 52)"
  have u: "0 < u" by (simp add: u_def)
  have f: "fl x = of_int (py_round (x / u)) * u"
    using fl_pos_eq [OF x] by (simp add: e_def u_def)
  have "\<bar>of_int (py_round (x / u)) - x / u\<bar> \<le> 1 / 2" by (rule py_round_near)
  then have "\<bar>of_int (py_round (x / u)) - x / u\<bar> * u \<le> (1 / 2) * u"
    using u by (intro mult_right_mono) simp_all
  moreover have "\<bar>of_int (py_round (x / u)) - x / u\<bar> * u = \<bar>fl x - x\<bar>"
  proof -
    have "(of_int (py_round (x / u)) - x / u) * u = fl x - x"
      using u by (simp add: f algebra_simps)
    then have "\<bar>fl x - x\<bar> = \<bar>(of_int (py_round (x / u)) - x / u) * u\<bar>" by simp
    also have "\<dots> = \<bar>of_int (py_round (x / u)) - x / u\<bar> * u"
      using u by (simp add: abs_mult)
    finally show ?thesis by simp
  qed
  ultimately have a: "\<bar>fl x - x\<bar> \<le> u / 2" by simp
  have "u = 2 powr (of_int e) / 2 ^ 52"
    by (simp add: u_def powr_diff)
  moreover have "2 powr (of_int e) \<le> x" unfolding e_def by (rule floor_log_le [OF x])
  ultimately have "u / 2 \<le> x / 2 ^ 53" by (simp add: field_simps)
  with a show ?thesis by linarith
qed

lemma fl_eval:
  fixes x :: real
  assumes "2 ^ 52 \<le> x * 2 ^ k" and "x * 2 ^ k < 2 ^ 53"
  shows "fl x = of_int (py_round (x * 2 ^ k)) / 2 ^ k"
proof -
  have x: "0 < x"
  proof (rule ccontr)
    assume "\<not> 0 < x"
    then have "x * 2 ^ k \<le> 0" by (simp add: mult_le_0_iff)
    then show False using assms(1) by (smt (verit) zero_less_power)
  qed
  have p: "(2::real) powr (of_int (52 - int k)) = 2 ^ 52 / 2 ^ k"
  proof -
    have "(2::real) powr (of_int (52 - int k)) = 2 powr 52 / 2 powr (real k)"
      by (simp add: powr_diff)
    then show ?thesis by (simp add: powr_realpow)
  qed
  have "\<lfloor>log 2 x\<rfloor> = 52 - int k"
  proof -
    have "2 powr (of_int (52 - int k)) \<le> x"
      unfolding p using assms(1) by (simp add: field_simps)
    moreover have "x < 2 powr (of_int (52 - int k + 1))"
    proof -
      have "(2::real) powr (of_int (52 - int k + 1)) = 2 powr (53 - real k)"
        by (simp add: algebra_simps)
      also have "\<dots> = 2 powr 53 / 2 powr (real k)" by (rule powr_diff)
      also have "\<dots> = 2 ^ 53 / 2 ^ k" by (simp add: powr_realpow)
      finally have e: "(2::real) powr (of_int (52 - int k + 1)) = 2 ^ 53 / 2 ^ k" .
      have "x < 2 ^ 53 / 2 ^ k" using assms(2) by (simp add: field_simps)
      then show ?thesis by (simp only: e)
    qed
    ultimately show ?thesis
      using floor_log_eq_powr_iff [of x 2 "52 - int k"] x by simp
  qed
  then have "fl x = of_int (py_round (x / 2 powr (of_int (52 - int k) - 52)))
                * 2 powr (of_int (52 - int k) - 52)"
    using fl_pos_eq [OF x] by simp
  moreover have "(2::real) powr (of_int (52 - int k) - 52) = 1 / 2 ^ k"
  proof -
    have "(2::real) powr (of_int (52 - int k) - 52) = 2 powr (of_int (52 - int k)) / 2 powr 52"
      by (rule powr_diff)
    then show ?thesis unfolding p by simp
  qed
  ultimately show ?thesis by simp
qed

lemma fl_nonneg: "0 \<le> x \<Longrightarrow> 0 \<le> fl x"
proof -
  assume x: "0 \<le> x"
  have "x / 2 ^ 53 \<le> x" using x by (simp add: field_simps)
  then show ?thesis using fl_err [OF x] by linarith
qed

text \<open>
  The reading time against the exact quotient \<open>word_count 60 div 225\<close>: the two rounded
  operations move the product by less than 1/15, so the truncation is the exact one
  unless the exact product is an integer (15 divides the word count), where it is that
  integer or one less.
\<close>

lemma reading_time_bounds:
  assumes "0 \<le> wc" and "wc < 2 ^ 40"
  shows "(\<not> 15 dvd wc \<longrightarrow> reading_time wc = max 1 ((wc * 60) div 225))
       \<and> max 1 ((wc * 60) div 225 - 1) \<le> reading_time wc
       \<and> reading_time wc \<le> max 1 ((wc * 60) div 225)"
proof -
  define q where "q = real_of_int wc / 225"
  define q1 where "q1 = fl q"
  define p where "p = fl (q1 * 60)"
  define k where "k = (wc * 4) div 15"
  define r where "r = (wc * 4) mod 15"
  have q: "0 \<le> q" "q < 2 ^ 40 / 225"
    using assms by (simp_all add: q_def)
  have e1: "\<bar>q1 - q\<bar> \<le> q / 2 ^ 53" unfolding q1_def by (rule fl_err [OF q(1)])
  have q1: "0 \<le> q1" unfolding q1_def by (rule fl_nonneg [OF q(1)])
  have x2: "0 \<le> q1 * 60" using q1 by simp
  have e2: "\<bar>p - q1 * 60\<bar> \<le> (q1 * 60) / 2 ^ 53" unfolding p_def by (rule fl_err [OF x2])
  have p0: "0 \<le> p" unfolding p_def by (rule fl_nonneg [OF x2])
  have "q / 2 ^ 53 \<le> q" using q(1) by (simp add: field_simps)
  then have q1u: "q1 \<le> 2 * q" using e1 by linarith
  have "(q1 * 60) / 2 ^ 53 \<le> (2 * q * 60) / 2 ^ 53"
    using q1u by (simp add: field_simps)
  then have "\<bar>p - q * 60\<bar> \<le> (2 * q * 60) / 2 ^ 53 + 60 * (q / 2 ^ 53)"
    using e1 e2 by linarith
  also have "\<dots> = 180 * q / 2 ^ 53" by simp
  also have "\<dots> < 1 / 15" using q(2) by simp
  finally have d: "\<bar>p - q * 60\<bar> < 1 / 15" .
  have kr: "wc * 4 = 15 * k + r" "0 \<le> r" "r < 15"
    by (simp_all add: k_def r_def)
  have "q * 60 = real_of_int (wc * 4) / 15" by (simp add: q_def)
  then have E: "q * 60 = of_int k + of_int r / 15" by (simp add: kr(1))
  have k60: "(wc * 60) div 225 = k"
  proof -
    have "wc * 60 = 15 * (wc * 4)" by simp
    then have "(wc * 60) div 225 = (15 * (wc * 4)) div (15 * 15)" by simp
    also have "\<dots> = (wc * 4) div 15" by (rule div_mult_mult1) simp
    finally show ?thesis by (simp add: k_def)
  qed
  have rt: "reading_time wc = max 1 \<lfloor>p\<rfloor>"
    using p0 by (simp add: reading_time_def py_int_def p_def q1_def q_def)
  have d1: "q * 60 - 1 / 15 < p" and d2: "p < q * 60 + 1 / 15"
    using d by linarith+
  have r0: "(0::real) \<le> of_int r" using kr(2) by simp
  have r14: "of_int r \<le> (14::real)" using kr(3) by simp
  have lo: "k - 1 \<le> \<lfloor>p\<rfloor>"
  proof -
    have "of_int k - 1 \<le> p" using d1 E r0 by linarith
    then have "of_int (k - 1) \<le> p" by simp
    then show ?thesis by (simp only: le_floor_iff)
  qed
  have hi: "\<lfloor>p\<rfloor> \<le> k"
  proof -
    have "p < of_int k + 1" using d2 E r14 by linarith
    then have "p < of_int (k + 1)" by simp
    then have "\<lfloor>p\<rfloor> < k + 1" by (simp only: floor_less_iff)
    then show ?thesis by simp
  qed
  have ex: "\<not> 15 dvd wc \<Longrightarrow> \<lfloor>p\<rfloor> = k"
  proof -
    assume n: "\<not> 15 dvd wc"
    have "\<not> 15 dvd wc * 4" using n by presburger
    then have "r \<noteq> 0" by (simp add: r_def dvd_eq_mod_eq_0)
    then have "1 \<le> r" using kr(2) by simp
    then have "(1::real) \<le> of_int r" by simp
    then have "of_int k \<le> p" using d1 E by linarith
    then have "k \<le> \<lfloor>p\<rfloor>" by (simp only: le_floor_iff)
    then show ?thesis using hi by simp
  qed
  show ?thesis using lo hi ex by (auto simp add: rt k60)
qed

text \<open>The lower value is taken: 1845 words give 491 seconds, the exact product being 492.\<close>

lemma fl_quotient_1845: "fl (1845 / 225) = 2308094809027379 / 2 ^ 48"
proof -
  have a: "fl (1845 / 225) = of_int (py_round ((1845 / 225) * 2 ^ 49)) / 2 ^ 49"
    by (rule fl_eval) simp_all
  have b: "py_round ((1845 / 225) * 2 ^ 49) = 4616189618054758"
    by (simp add: py_round_def Let_def)
  show ?thesis unfolding a b by simp
qed

lemma fl_product_1845: "fl (fl (1845 / 225) * 60) = 8655355533852671 / 2 ^ 44"
  unfolding fl_quotient_1845
proof -
  have a: "fl (2308094809027379 / 2 ^ 48 * 60)
          = of_int (py_round ((2308094809027379 / 2 ^ 48 * 60) * 2 ^ 44)) / 2 ^ 44"
    by (rule fl_eval) simp_all
  have b: "py_round ((2308094809027379 / 2 ^ 48 * 60) * 2 ^ 44) = 8655355533852671"
    by (simp add: py_round_def Let_def)
  show "fl (2308094809027379 / 2 ^ 48 * 60) = 8655355533852671 / 2 ^ 44"
    unfolding a b by simp
qed

lemma reading_time_1845: "reading_time 1845 = 491 \<and> (1845 * 60) div 225 = (492::int)"
proof -
  have "py_int (8655355533852671 / 2 ^ 44) = 491"
    by (simp add: py_int_def)
  moreover have "reading_time 1845 = max 1 (py_int (fl (fl (1845 / 225) * 60)))"
    by (simp only: reading_time_def of_int_numeral)
  ultimately show ?thesis unfolding fl_product_1845 by simp
qed


lemma content_signals:
  "word_count (extract_content lib sp h p)
     = (if truthy (trafilatura_extract lib h)
        then int (length (py_split (the (trafilatura_extract lib h)))) else word_count p)
   \<and> reading_time_seconds (extract_content lib sp h p)
     = (if truthy (trafilatura_extract lib h)
        then reading_time (int (length (py_split (the (trafilatura_extract lib h)))))
        else reading_time_seconds p)"
  by (simp add: extract_content_def Let_def)

lemma analyze_content_signals:
  assumes "cr_html cr \<noteq> []"
  shows "word_count (analyze lib cr depth)
     = (if truthy (trafilatura_extract lib (cr_html cr))
        then int (length (py_split (the (trafilatura_extract lib (cr_html cr))))) else 0)
   \<and> reading_time_seconds (analyze lib cr depth)
     = (if truthy (trafilatura_extract lib (cr_html cr))
        then reading_time (int (length (py_split (the (trafilatura_extract lib (cr_html cr))))))
        else 0)"
  using assms
  by (simp add: analyze_def Let_def keyword_frame technical_frame social_meta_frame
      structured_data_frame links_frame images_frame content_signals headings_frame
      basic_seo_frame AnalyzedPage_init_def)

lemma analyze_empty:
  "cr_html cr = [] \<Longrightarrow>
     analyze lib cr depth
       = AnalyzedPage_init
           \<lparr> url := cr_url cr, status_code := cr_status_code cr,
             load_time_ms := cr_load_time_ms cr, page_size_bytes := cr_page_size_bytes cr,
             is_https := prefix ''https://'' (cr_url cr), headers := cr_headers cr,
             raw_html := cr_html cr \<rparr>"
  by (simp add: analyze_def Let_def)

text \<open>
  A library for examples: every query of the parsed document comes back empty, the
  structured-data extractor finds nothing, and the readability extractor returns the
  text given.
\<close>

definition empty_soup :: soup where
  "empty_soup =
     \<lparr> title_string = None, meta_description_content = None, meta_robots_content = None,
       canonical_href = None, html_lang = None, hreflang_tags = 0,
       heading_texts = (\<lambda>level. []), soup_text = [], img_alts = [], anchors = [],
       og_metas = [], twitter_metas = [], viewport_meta = False \<rparr>"

definition text_lib :: "string option \<Rightarrow> html_lib" where
  "text_lib extracted =
     \<lparr> parse_html = (\<lambda>html. empty_soup),
       trafilatura_extract = (\<lambda>html. extracted),
       extruct_extract = (\<lambda>html u. Inr \<lparr> json_ld = [], microdata = [], rdfa = [] \<rparr>),
       urljoin = (\<lambda>base href. href),
       url_scheme = (\<lambda>u. ''https''),
       url_netloc = (\<lambda>u. u) \<rparr>"

text \<open>
  Claim C10. For every crawl result whose html is empty, \<open>analyze\<close> returns the page
  of defaults with url, status_code, load_time_ms, page_size_bytes, headers, raw_html
  and is_https (true iff the url starts with \<open>https://\<close>) copied in; in particular
  word_count is 0, the heading lists and the keyword-frequency map are empty,
  total_images is 0 and is_indexable is true.
\<close>

theorem analyze_empty_html:
  assumes "cr_html cr = []"
  shows "analyze lib cr depth
       = AnalyzedPage_init
           \<lparr> url := cr_url cr, status_code := cr_status_code cr,
             load_time_ms := cr_load_time_ms cr, page_size_bytes := cr_page_size_bytes cr,
             is_https := prefix ''https://'' (cr_url cr), headers := cr_headers cr,
             raw_html := cr_html cr \<rparr>
     \<and> word_count (analyze lib cr depth) = 0
     \<and> h1_tags (analyze lib cr depth) = [] \<and> h2_tags (analyze lib cr depth) = []
     \<and> h3_tags (analyze lib cr depth) = [] \<and> h4_tags (analyze lib cr depth) = []
     \<and> h5_tags (analyze lib cr depth) = [] \<and> h6_tags (analyze lib cr depth) = []
     \<and> keyword_frequencies (analyze lib cr depth) = []
     \<and> total_images (analyze lib cr depth) = 0
     \<and> is_indexable (analyze lib cr depth)
     \<and> (is_https (analyze lib cr depth) \<longleftrightarrow> prefix ''https://'' (cr_url cr))"
  by (simp add: analyze_empty [OF assms] AnalyzedPage_init_def)

text \<open>The result of a fetch that raised, for an https URL.\<close>

theorem analyze_empty_html_witness:
  "analyze (text_lib None) (page_failed ''https://example.test/x'') 1
     = AnalyzedPage_init
         \<lparr> url := ''https://example.test/x'', status_code := 0, load_time_ms := 10,
           page_size_bytes := 0, is_https := True, headers := [], raw_html := [] \<rparr>
   \<and> is_indexable (analyze (text_lib None) (page_failed ''https://example.test/x'') 1)
   \<and> keyword_frequencies (analyze (text_lib None) (page_failed ''https://example.test/x'') 1) = []"
proof -
  have "cr_html (page_failed ''https://example.test/x'') = []"
    by (simp add: page_failed_def)
  from analyze_empty_html [OF this, of "text_lib None" 1] show ?thesis
    by (simp add: page_failed_def AnalyzedPage_init_def)
qed

text \<open>
  Claim C4, as the code has it. For every analyzed page, when the HTML is not empty and
  the extractor returns text, \<open>word_count\<close> is the number of whitespace-separated words
  of that text and \<open>reading_time_seconds = max(1, int((word_count / 225) * 60))\<close>, the
  double product truncated, not rounded: for a word count below \<open>2^40\<close> that is
  \<open>max(1, word_count 60 div 225)\<close> when 15 does not divide the word count, and that
  value or one less when it does. Otherwise (empty HTML, or nothing extracted)
  \<open>word_count = 0\<close> and \<open>reading_time_seconds\<close> keeps its default 0.
\<close>

theorem analyze_reading_time:
  "word_count (analyze lib cr depth)
     = (if cr_html cr \<noteq> [] \<and> truthy (trafilatura_extract lib (cr_html cr))
        then int (length (py_split (the (trafilatura_extract lib (cr_html cr))))) else 0)
   \<and> reading_time_seconds (analyze lib cr depth)
     = (if cr_html cr \<noteq> [] \<and> truthy (trafilatura_extract lib (cr_html cr))
        then max 1 (py_int (fl (fl (real_of_int (word_count (analyze lib cr depth)) / 225) * 60)))
        else 0)
   \<and> (cr_html cr \<noteq> [] \<and> truthy (trafilatura_extract lib (cr_html cr))
        \<and> word_count (analyze lib cr depth) < 2 ^ 40 \<longrightarrow>
        (\<not> 15 dvd word_count (analyze lib cr depth) \<longrightarrow>
           reading_time_seconds (analyze lib cr depth)
             = max 1 ((word_count (analyze lib cr depth) * 60) div 225))
        \<and> max 1 ((word_count (analyze lib cr depth) * 60) div 225 - 1)
            \<le> reading_time_seconds (analyze lib cr depth)
        \<and> reading_time_seconds (analyze lib cr depth)
            \<le> max 1 ((word_count (analyze lib cr depth) * 60) div 225))"
proof (cases "cr_html cr \<noteq> [] \<and> truthy (trafilatura_extract lib (cr_html cr))")
  case False
  show ?thesis
  proof (cases "cr_html cr = []")
    case True
    then show ?thesis by (simp add: analyze_empty AnalyzedPage_init_def)
  next
    case h: False
    then have "\<not> truthy (trafilatura_extract lib (cr_html cr))" using False by simp
    then show ?thesis using analyze_content_signals [OF h, of lib depth] h by simp
  qed
next
  case True
  define n where "n = int (length (py_split (the (trafilatura_extract lib (cr_html cr)))))"
  have h: "cr_html cr \<noteq> []" using True by simp
  have w: "word_count (analyze lib cr depth) = n"
    using analyze_content_signals [OF h, of lib depth] True by (simp add: n_def)
  have r: "reading_time_seconds (analyze lib cr depth) = reading_time n"
    using analyze_content_signals [OF h, of lib depth] True by (simp add: n_def)
  have n0: "0 \<le> n" by (simp add: n_def)
  have c1: "word_count (analyze lib cr depth)
     = (if cr_html cr \<noteq> [] \<and> truthy (trafilatura_extract lib (cr_html cr))
        then int (length (py_split (the (trafilatura_extract lib (cr_html cr))))) else 0)"
    using True w by (simp add: n_def)
  have c2: "reading_time_seconds (analyze lib cr depth)
     = (if cr_html cr \<noteq> [] \<and> truthy (trafilatura_extract lib (cr_html cr))
        then max 1 (py_int (fl (fl (real_of_int (word_count (analyze lib cr depth)) / 225) * 60)))
        else 0)"
    unfolding w r using True by (simp add: reading_time_def)
  have c3: "cr_html cr \<noteq> [] \<and> truthy (trafilatura_extract lib (cr_html cr))
        \<and> word_count (analyze lib cr depth) < 2 ^ 40 \<longrightarrow>
        (\<not> 15 dvd word_count (analyze lib cr depth) \<longrightarrow>
           reading_time_seconds (analyze lib cr depth)
             = max 1 ((word_count (analyze lib cr depth) * 60) div 225))
        \<and> max 1 ((word_count (analyze lib cr depth) * 60) div 225 - 1)
            \<le> reading_time_seconds (analyze lib cr depth)
        \<and> reading_time_seconds (analyze lib cr depth)
            \<le> max 1 ((word_count (analyze lib cr depth) * 60) div 225)"
    unfolding w r using reading_time_bounds [OF n0] by blast
  show ?thesis using c1 c2 c3 by blast
qed

text \<open>A page of six words reads in 1 second.\<close>

theorem analyze_reading_time_witness:
  "word_count (analyze (text_lib (Some ''one two three four five six''))
       (page_ok ''https://example.test'') 0) = 6
   \<and> reading_time_seconds (analyze (text_lib (Some ''one two three four five six''))
       (page_ok ''https://example.test'') 0) = 1"
proof -
  have h: "cr_html (page_ok ''https://example.test'') \<noteq> []"
    by (simp add: page_ok_def)
  have t: "trafilatura_extract (text_lib (Some ''one two three four five six'')) h
             = Some ''one two three four five six''" for h
    by (simp add: text_lib_def)
  have s: "py_split ''one two three four five six''
             = [''one'', ''two'', ''three'', ''four'', ''five'', ''six'']"
    by (simp add: py_split_def py_isspace_def)
  let ?a = "analyze (text_lib (Some ''one two three four five six''))
       (page_ok ''https://example.test'') 0"
  note c = analyze_reading_time
      [of "text_lib (Some ''one two three four five six'')" "page_ok ''https://example.test''" 0]
  have tr: "truthy (trafilatura_extract (text_lib (Some ''one two three four five six''))
       (cr_html (page_ok ''https://example.test'')))"
    by (simp add: t)
  have w: "word_count ?a = 6" using c h by (simp add: t s)
  have lt: "word_count ?a < 2 ^ 40" unfolding w by simp
  have nd: "\<not> 15 dvd word_count ?a" unfolding w by simp
  from c h tr lt nd
  have "reading_time_seconds ?a = max 1 ((word_count ?a * 60) div 225)" by blast
  then have "reading_time_seconds ?a = 1" unfolding w by simp
  then show ?thesis using w by simp
qed

text \<open>
  Against claim C4 as stated: a page with empty HTML, and a page whose HTML yields no
  text, have \<open>word_count = 0\<close> and \<open>reading_time_seconds = 0\<close>, not 1; and six words give
  1 second where \<open>max(1, round(6/225 * 60))\<close> is 2.
\<close>

theorem analyze_reading_time_counterexample:
  "word_count (analyze (text_lib None) (page_failed ''https://example.test'') 0) = 0
   \<and> reading_time_seconds (analyze (text_lib None) (page_failed ''https://example.test'') 0) = 0
   \<and> word_count (analyze (text_lib None) (page_ok ''https://example.test'') 0) = 0
   \<and> reading_time_seconds (analyze (text_lib None) (page_ok ''https://example.test'') 0) = 0
   \<and> reading_time_seconds (analyze (text_lib (Some ''one two three four five six''))
       (page_ok ''https://example.test'') 0) = 1
   \<and> max 1 (py_round ((6 / 225) * 60)) = 2"
proof -
  have e: "cr_html (page_failed ''https://example.test'') = []"
    by (simp add: page_failed_def)
  have h: "cr_html (page_ok ''https://example.test'') \<noteq> []"
    by (simp add: page_ok_def)
  have s: "py_split ''one two three four five six''
             = [''one'', ''two'', ''three'', ''four'', ''five'', ''six'']"
    by (simp add: py_split_def py_isspace_def)
  have six: "reading_time 6 = 1"
    using reading_time_bounds [of 6] by simp
  have a: "word_count (analyze (text_lib None) (page_failed ''https://example.test'') 0) = 0
     \<and> reading_time_seconds (analyze (text_lib None) (page_failed ''https://example.test'') 0) = 0"
    by (simp add: analyze_empty [OF e] AnalyzedPage_init_def)
  have b: "word_count (analyze (text_lib None) (page_ok ''https://example.test'') 0) = 0
     \<and> reading_time_seconds (analyze (text_lib None) (page_ok ''https://example.test'') 0) = 0"
    using analyze_content_signals [OF h, of "text_lib None" 0] by (simp add: text_lib_def)
  have c: "reading_time_seconds (analyze (text_lib (Some ''one two three four five six''))
       (page_ok ''https://example.test'') 0) = 1"
    using analyze_content_signals [OF h, of "text_lib (Some ''one two three four five six'')" 0]
    by (simp add: text_lib_def s six)
  have d: "max 1 (py_round ((6 / 225) * 60)) = 2"
    by (simp add: py_round_def Let_def)
  show ?thesis using a b c d by blast
qed

text \<open>
  The token filter as the specification words it: strip each token first, then drop the
  tokens of length \<open>\<le> 2\<close> and the stop words.
\<close>

definition spec_meaningful_tokens :: "string list \<Rightarrow> string list" where
  "spec_meaningful_tokens tokens =
     filter (\<lambda>t. \<not> (length t \<le> 2 \<or> t \<in> STOP_WORDS))
       (map (py_strip_chars [CHR 0x27, CHR ''-'']) tokens)"

lemma strip_chars_length: "length (py_strip_chars cs t) \<le> length t"
proof -
  have "length (dropWhile (\<lambda>c. c \<in> set cs) (rev (dropWhile (\<lambda>c. c \<in> set cs) t)))
          \<le> length (rev (dropWhile (\<lambda>c. c \<in> set cs) t))"
    by (rule length_dropWhile_le)
  also have "\<dots> \<le> length t" by (simp add: length_dropWhile_le)
  finally show ?thesis by (simp add: py_strip_chars_def)
qed

lemma stop_words_plain:
  "\<forall>w \<in> STOP_WORDS. py_strip_chars [CHR 0x27, CHR ''-''] w = w"
  by (simp add: STOP_WORDS_def py_strip_chars_def)

text \<open>
  The two filters differ by the tokens that are short or stop words only after
  stripping: the code keeps them, the specification's wording drops them.
\<close>

lemma spec_keeps_imp_code_keeps:
  assumes "2 < length (py_strip_chars [CHR 0x27, CHR ''-''] t)"
    and "py_strip_chars [CHR 0x27, CHR ''-''] t \<notin> STOP_WORDS"
  shows "length t > 2 \<and> t \<notin> STOP_WORDS \<and> py_strip_chars [CHR 0x27, CHR ''-''] t \<noteq> []"
proof -
  let ?strip = "py_strip_chars [CHR 0x27, CHR ''-'']"
  have "length (?strip t) \<le> length t" by (rule strip_chars_length)
  then have "length t > 2" using assms(1) by linarith
  moreover have "t \<notin> STOP_WORDS"
  proof
    assume "t \<in> STOP_WORDS"
    then have "?strip t = t" using stop_words_plain by blast
    then show False using assms(2) \<open>t \<in> STOP_WORDS\<close> by simp
  qed
  moreover have "?strip t \<noteq> []" using assms(1) by auto
  ultimately show ?thesis by blast
qed

lemma meaningful_tokens_Cons:
  "meaningful_tokens (t # ts)
     = (if length t > 2 \<and> t \<notin> STOP_WORDS \<and> py_strip_chars [CHR 0x27, CHR ''-''] t \<noteq> []
        then py_strip_chars [CHR 0x27, CHR ''-''] t # meaningful_tokens ts
        else meaningful_tokens ts)"
  by (simp add: meaningful_tokens_def)

lemma spec_meaningful_tokens_Cons:
  "spec_meaningful_tokens (t # ts)
     = (if 2 < length (py_strip_chars [CHR 0x27, CHR ''-''] t)
           \<and> py_strip_chars [CHR 0x27, CHR ''-''] t \<notin> STOP_WORDS
        then py_strip_chars [CHR 0x27, CHR ''-''] t # spec_meaningful_tokens ts
        else spec_meaningful_tokens ts)"
  by (simp add: spec_meaningful_tokens_def not_le)

lemma spec_tokens_of_code_tokens:
  "spec_meaningful_tokens tokens
     = filter (\<lambda>t. 2 < length t \<and> t \<notin> STOP_WORDS) (meaningful_tokens tokens)"
proof (induction tokens)
  case Nil
  show ?case by (simp add: spec_meaningful_tokens_def meaningful_tokens_def)
next
  case (Cons t ts)
  let ?s = "py_strip_chars [CHR 0x27, CHR ''-''] t"
  show ?case
  proof (cases "2 < length ?s \<and> ?s \<notin> STOP_WORDS")
    case True
    then have "length t > 2 \<and> t \<notin> STOP_WORDS \<and> ?s \<noteq> []"
      using spec_keeps_imp_code_keeps [of t] by blast
    then show ?thesis
      using True Cons.IH
      by (simp add: meaningful_tokens_Cons spec_meaningful_tokens_Cons)
  next
    case False
    show ?thesis
    proof (cases "length t > 2 \<and> t \<notin> STOP_WORDS \<and> ?s \<noteq> []")
      case True
      then show ?thesis
        using False Cons.IH
        by (simp add: meaningful_tokens_Cons spec_meaningful_tokens_Cons)
    next
      case c: False
      then show ?thesis
        using False Cons.IH
        by (simp add: meaningful_tokens_Cons spec_meaningful_tokens_Cons)
    qed
  qed
qed

text \<open>The content text \<open>'the' cat\<close>: a stop word in single quotes, and a word.\<close>

definition quoted_the_cat :: string where
  "quoted_the_cat = [CHR 0x27] @ ''the'' @ [CHR 0x27] @ '' cat''"

lemma quoted_tokens:
  "py_split (clean_text quoted_the_cat) = [[CHR 0x27, CHR ''t'', CHR ''h'', CHR ''e'', CHR 0x27], ''cat'']"
  by (simp add: quoted_the_cat_def clean_text_def py_lower_def lower_char_def keep_char_def
      py_isspace_def py_split_def)

lemma quoted_meaningful:
  "meaningful_tokens [[CHR 0x27, CHR ''t'', CHR ''h'', CHR ''e'', CHR 0x27], ''cat''] = [''the'', ''cat'']"
  by (simp add: meaningful_tokens_def STOP_WORDS_def py_strip_chars_def)

text \<open>
  Claim C5 on this text: the claim drops \<open>the\<close> (a stop word once stripped) and gives
  the map \<open>{cat: 1}\<close>. The code tests the token \<open>'the'\<close> before stripping it, keeps it,
  and gives \<open>{the: 1, cat: 1}\<close>; the bigram \<open>the cat\<close> occurs once and is left out.
\<close>

theorem keyword_frequencies_keep_quoted_stop_word:
  "keyword_frequencies
     (analyze (text_lib (Some quoted_the_cat)) (page_ok ''https://example.test'') 0)
     = [(''the'', 1), (''cat'', 1)]
   \<and> spec_meaningful_tokens (py_split (clean_text quoted_the_cat)) = [''cat'']
   \<and> ''the'' \<in> STOP_WORDS"
proof -
  let ?lib = "text_lib (Some quoted_the_cat)"
  let ?cr = "page_ok ''https://example.test''"
  have ne: "quoted_the_cat \<noteq> []" by (simp add: quoted_the_cat_def)
  have k: "keyword_frequencies
             (compute_keyword_frequencies (p\<lparr> content_text := quoted_the_cat \<rparr>))
             = [(''the'', 1), (''cat'', 1)]" for p :: AnalyzedPage
    using ne
    by (simp add: compute_keyword_frequencies_def Let_def quoted_tokens quoted_meaningful
        Counter_def most_common_def)
  have s: "spec_meaningful_tokens (py_split (clean_text quoted_the_cat)) = [''cat'']"
    by (simp add: quoted_tokens spec_meaningful_tokens_def STOP_WORDS_def py_strip_chars_def)
  have "analyze ?lib ?cr 0
          = compute_keyword_frequencies
              (extract_technical_signals empty_soup
                (extract_social_meta empty_soup
                  (extract_structured_data ?lib (cr_html ?cr) (cr_final_url ?cr)
                    (extract_links_page ?lib empty_soup (cr_final_url ?cr)
                      (extract_images empty_soup
                        (extract_content ?lib empty_soup (cr_html ?cr)
                          (extract_headings empty_soup
                            (extract_basic_seo empty_soup (cr_final_url ?cr)
                              (AnalyzedPage_init
                                 \<lparr> url := cr_url ?cr, status_code := cr_status_code ?cr,
                                   load_time_ms := cr_load_time_ms ?cr,
                                   page_size_bytes := cr_page_size_bytes ?cr,
                                   is_https := prefix ''https://'' (cr_url ?cr),
                                   headers := cr_headers ?cr,
                                   raw_html := cr_html ?cr \<rparr>)))))))))"
    (is "_ = compute_keyword_frequencies ?p")
    by (simp add: analyze_def Let_def page_ok_def text_lib_def)
  moreover have "content_text ?p = quoted_the_cat"
    using ne
    by (simp add: page_ok_def text_lib_def technical_frame Let_def
        social_meta_frame structured_data_frame links_frame images_frame extract_content_def)
  then have "?p = ?p\<lparr> content_text := quoted_the_cat \<rparr>" by simp
  ultimately have "keyword_frequencies (analyze ?lib ?cr 0) = [(''the'', 1), (''cat'', 1)]"
    using k [of ?p] by simp
  then show ?thesis using s by (simp add: STOP_WORDS_def)
qed

end
